theory Spec2Isabelle
  imports Main "HOL-Library.Word" "HOL-Library.Sublist"
begin

section \<open>JavaScript strings\<close>

text \<open>
  A JavaScript string is a sequence of UTF-16 code units. The route's helpers look only at
  code units (\<open>indexOf\<close>, \<open>slice\<close>, regular expressions without the \<open>u\<close> flag), so a string
  is modelled as a list of 16-bit words; \<open>js\<close> embeds an ASCII literal.
\<close>

type_synonym unit16 = "16 word"
type_synonym jstring = "unit16 list"

definition js :: "string \<Rightarrow> jstring" where
  "js s = map of_char s"

text \<open>
  The class \<open>\s\<close> of a regular expression and the characters removed by \<open>String.prototype.trim\<close>
  are the same set: WhiteSpace (TAB, VT, FF, SP, NBSP, ZWNBSP and the Unicode space separators)
  together with LineTerminator (LF, CR, LS, PS).
\<close>

definition is_space :: "unit16 \<Rightarrow> bool" where
  "is_space c = (c \<in> {0x09, 0x0A, 0x0B, 0x0C, 0x0D, 0x20, 0xA0, 0x1680, 0x2028, 0x2029,
                        0x202F, 0x205F, 0x3000, 0xFEFF} \<or> (0x2000 \<le> c \<and> c \<le> 0x200A))"

text \<open>
  Case-insensitive matching (flag \<open>i\<close>, no flag \<open>u\<close>) compares canonicalized code units. A code
  unit outside ASCII never canonicalizes to an ASCII one, so against the ASCII pattern
  \<open>```json\<close> only the mapping of \<open>a..z\<close> to \<open>A..Z\<close> matters.
\<close>

definition canonicalize :: "unit16 \<Rightarrow> unit16" where
  "canonicalize c = (if 0x61 \<le> c \<and> c \<le> 0x7A then c - 0x20 else c)"

fun ci_prefix :: "jstring \<Rightarrow> jstring \<Rightarrow> bool" where
  "ci_prefix [] s = True"
| "ci_prefix (p # ps) [] = False"
| "ci_prefix (p # ps) (c # cs) = (canonicalize p = canonicalize c \<and> ci_prefix ps cs)"

definition fence :: jstring where
  "fence = js ''```''"

definition json_fence :: jstring where
  "json_fence = js ''```json''"

text \<open>
  \<open>s.replace(/```json\s*/gi, "")\<close>: scanning from the left, every match of the fence and the
  white space after it (greedy) is deleted, and scanning resumes after the match.
\<close>

function remove_json_fences :: "jstring \<Rightarrow> jstring" where
  "remove_json_fences [] = []"
| "remove_json_fences (c # cs) =
     (if ci_prefix json_fence (c # cs)
      then remove_json_fences (dropWhile is_space (drop (length json_fence) (c # cs)))
      else c # remove_json_fences cs)"
  by pat_completeness auto
termination
proof (relation "measure length")
  show "wf (measure length)" by simp
next
  fix c :: unit16 and cs :: jstring
  have "length (dropWhile is_space (drop (length json_fence) (c # cs)))
          \<le> length (drop (length json_fence) (c # cs))"
    by (rule length_dropWhile_le)
  also have "\<dots> < length (c # cs)"
    by (simp add: json_fence_def js_def)
  finally show "(dropWhile is_space (drop (length json_fence) (c # cs)), c # cs) \<in> measure length"
    by simp
next
  fix c :: unit16 and cs :: jstring
  show "(cs, c # cs) \<in> measure length" by simp
qed

text \<open>\<open>s.replace(/```/g, "")\<close>: every non-overlapping occurrence, from the left.\<close>

function remove_fences :: "jstring \<Rightarrow> jstring" where
  "remove_fences [] = []"
| "remove_fences (c # cs) =
     (if prefix fence (c # cs) then remove_fences (drop (length fence) (c # cs))
      else c # remove_fences cs)"
  by pat_completeness auto
termination
  by (relation "measure length") (auto simp: fence_def js_def)

definition trim :: "jstring \<Rightarrow> jstring" where
  "trim s = rev (dropWhile is_space (rev (dropWhile is_space s)))"

definition stripJsonFences :: "jstring \<Rightarrow> jstring" where
  "stripJsonFences s = trim (remove_fences (remove_json_fences s))"

text \<open>
  \<open>indexOf\<close> and \<open>lastIndexOf\<close> for a one-character search string; \<open>-1\<close> when it is absent,
  as in the source. \<open>slice\<close> with JavaScript's clamping of both ends.
\<close>

fun indexOf :: "jstring \<Rightarrow> unit16 \<Rightarrow> int" where
  "indexOf [] c = -1"
| "indexOf (x # xs) c =
     (if x = c then 0 else (let i = indexOf xs c in if i = -1 then -1 else i + 1))"

definition lastIndexOf :: "jstring \<Rightarrow> unit16 \<Rightarrow> int" where
  "lastIndexOf s c =
     (let i = indexOf (rev s) c in if i = -1 then -1 else int (length s) - 1 - i)"

definition slice :: "jstring \<Rightarrow> int \<Rightarrow> int \<Rightarrow> jstring" where
  "slice s a b =
     (let len = int (length s);
          from = (if a < 0 then max (len + a) 0 else min a len);
          to = (if b < 0 then max (len + b) 0 else min b len)
      in take (nat (to - from)) (drop (nat from) s))"

definition lbrace :: unit16 where "lbrace = 0x7B"
definition rbrace :: unit16 where "rbrace = 0x7D"

definition extractFirstJsonObject :: "jstring \<Rightarrow> jstring option" where
  "extractFirstJsonObject s =
     (let start = indexOf s lbrace; end = lastIndexOf s rbrace
      in if start = -1 \<or> end = -1 \<or> end \<le> start then None
         else Some (slice s start (end + 1)))"


section \<open>JSON values\<close>

text \<open>
  The values \<open>JSON.parse\<close> produces. The schemas of this repository have no numeric field, so
  the payload of a number is never inspected and its carrier is left as a type parameter.
  An object is an association list in insertion order; \<open>field k v\<close> is \<open>v[k]\<close>, with \<open>None\<close>
  for \<open>undefined\<close>.
\<close>

datatype 'n json =
    JNull
  | JBool bool
  | JNum 'n
  | JStr jstring
  | JArr "'n json list"
  | JObj "(jstring \<times> 'n json) list"

definition field :: "jstring \<Rightarrow> 'n json \<Rightarrow> 'n json option" where
  "field k v = (case v of JObj kvs \<Rightarrow> map_of kvs k | _ \<Rightarrow> None)"

text \<open>
  An object literal whose property values may be \<open>undefined\<close>, as it is serialized:
  \<open>JSON.stringify\<close> and \<open>NextResponse.json\<close> leave such properties out.
\<close>

definition object_literal :: "(jstring \<times> 'n json option) list \<Rightarrow> 'n json" where
  "object_literal kvs =
     JObj (concat (map (\<lambda>(k, v). case v of None \<Rightarrow> [] | Some x \<Rightarrow> [(k, x)]) kvs))"

section \<open>The zod schemas of \<open>diagnosticSchema.ts\<close>\<close>

text \<open>
  The schema combinators used by \<open>diagnosticSchema.ts\<close> and the way zod parses with them:
  a parse collects the issues of all properties and elements, depth first in declaration
  order, each with its path; an object schema keeps the declared keys only (unknown keys are
  stripped, the default of \<open>z.object\<close>); \<open>default\<close> replaces \<open>undefined\<close> before the inner schema
  runs. The text of an issue's message comes from zod's error map, taken as a parameter.
\<close>

datatype ztype = TString | TNumber | TBoolean | TNull | TUndefined | TArray | TObject

datatype zcode =
    InvalidType ztype ztype
  | InvalidEnumType "jstring list" ztype
  | InvalidEnumValue "jstring list" jstring

datatype pkey = Key jstring | Idx nat

record zissue =
  code :: zcode
  path :: "pkey list"
  message :: jstring

datatype 'n zschema =
    ZString
  | ZBoolean
  | ZEnum "jstring list"
  | ZArray "'n zschema"
  | ZObject "(jstring \<times> 'n zschema) list"
  | ZNullable "'n zschema"
  | ZOptional "'n zschema"
  | ZDefault "'n json" "'n zschema"

fun getParsedType :: "'n json option \<Rightarrow> ztype" where
  "getParsedType None = TUndefined"
| "getParsedType (Some JNull) = TNull"
| "getParsedType (Some (JBool b)) = TBoolean"
| "getParsedType (Some (JNum n)) = TNumber"
| "getParsedType (Some (JStr s)) = TString"
| "getParsedType (Some (JArr xs)) = TArray"
| "getParsedType (Some (JObj kvs)) = TObject"

definition issue :: "(zcode \<Rightarrow> jstring) \<Rightarrow> pkey list \<Rightarrow> zcode \<Rightarrow> zissue" where
  "issue em p c = \<lparr>code = c, path = p, message = em c\<rparr>"

text \<open>
  The result of a parse: \<open>Inl\<close> the issues of an invalid input, \<open>Inr\<close> the output of a valid
  one (\<open>None\<close> for \<open>undefined\<close>).
\<close>

type_synonym 'n zresult = "zissue list + 'n json option"

definition issues_of :: "'n zresult \<Rightarrow> zissue list" where
  "issues_of r = (case r of Inl is \<Rightarrow> is | Inr v \<Rightarrow> [])"

text \<open>
  An object is valid when all its declared properties are; a property whose output is
  \<open>undefined\<close> is not set. An array element is never \<open>undefined\<close> (it would serialize as
  \<open>null\<close>).
\<close>

definition merge_object :: "(jstring \<times> 'n zresult) list \<Rightarrow> 'n zresult" where
  "merge_object pairs =
     (if list_ex (\<lambda>(k, r). isl r) pairs
      then Inl (concat (map (\<lambda>(k, r). issues_of r) pairs))
      else Inr (Some (JObj (concat (map (\<lambda>(k, r). case r of Inr (Some x) \<Rightarrow> [(k, x)] | _ \<Rightarrow> []) pairs)))))"

definition merge_array :: "'n zresult list \<Rightarrow> 'n zresult" where
  "merge_array rs =
     (if list_ex isl rs
      then Inl (concat (map issues_of rs))
      else Inr (Some (JArr (map (\<lambda>r. case r of Inr (Some x) \<Rightarrow> x | _ \<Rightarrow> JNull) rs))))"

fun zparse :: "(zcode \<Rightarrow> jstring) \<Rightarrow> 'n zschema \<Rightarrow> pkey list \<Rightarrow> 'n json option \<Rightarrow> 'n zresult" where
  "zparse em ZString p v =
     (case v of Some (JStr s) \<Rightarrow> Inr (Some (JStr s))
      | _ \<Rightarrow> Inl [issue em p (InvalidType TString (getParsedType v))])"
| "zparse em ZBoolean p v =
     (case v of Some (JBool b) \<Rightarrow> Inr (Some (JBool b))
      | _ \<Rightarrow> Inl [issue em p (InvalidType TBoolean (getParsedType v))])"
| "zparse em (ZEnum opts) p v =
     (case v of
        Some (JStr s) \<Rightarrow>
          if s \<in> set opts then Inr (Some (JStr s))
          else Inl [issue em p (InvalidEnumValue opts s)]
      | _ \<Rightarrow> Inl [issue em p (InvalidEnumType opts (getParsedType v))])"
| "zparse em (ZArray s) p v =
     (case v of
        Some (JArr xs) \<Rightarrow>
          merge_array (map (\<lambda>(i, x). zparse em s (p @ [Idx i]) (Some x)) (enumerate 0 xs))
      | _ \<Rightarrow> Inl [issue em p (InvalidType TArray (getParsedType v))])"
| "zparse em (ZObject shape) p v =
     (case v of
        Some (JObj kvs) \<Rightarrow>
          merge_object (map (\<lambda>(k, s). (k, zparse em s (p @ [Key k]) (map_of kvs k))) shape)
      | _ \<Rightarrow> Inl [issue em p (InvalidType TObject (getParsedType v))])"
| "zparse em (ZNullable s) p v =
     (if v = Some JNull then Inr (Some JNull) else zparse em s p v)"
| "zparse em (ZOptional s) p v =
     (if v = None then Inr None else zparse em s p v)"
| "zparse em (ZDefault d s) p v =
     (if v = None then zparse em s p (Some d) else zparse em s p v)"

text \<open>
  \<open>schema.parse(v)\<close> and \<open>schema.safeParse(v)\<close> run the same parse at the empty path; \<open>parse\<close>
  throws the \<open>ZodError\<close> that \<open>safeParse\<close> returns, here both are the \<open>Inl\<close> of the result.
\<close>

definition parse :: "(zcode \<Rightarrow> jstring) \<Rightarrow> 'n zschema \<Rightarrow> 'n json \<Rightarrow> 'n zresult" where
  "parse em schema v = zparse em schema [] (Some v)"

definition safeParse :: "(zcode \<Rightarrow> jstring) \<Rightarrow> 'n zschema \<Rightarrow> 'n json \<Rightarrow> 'n zresult" where
  "safeParse em schema v = zparse em schema [] (Some v)"

definition BilingualText :: "'n zschema" where
  "BilingualText = ZObject [(js ''en'', ZString), (js ''es'', ZString)]"

definition BilingualTextArray :: "'n zschema" where
  "BilingualTextArray = ZObject [(js ''en'', ZArray ZString), (js ''es'', ZArray ZString)]"

definition DiagnosticInputSchema :: "'n zschema" where
  "DiagnosticInputSchema = ZObject
     [(js ''make'', ZString),
      (js ''model'', ZString),
      (js ''year'', ZString),
      (js ''engine'', ZString),
      (js ''dtcs'', ZArray ZString),
      (js ''symptom'', ZString),
      (js ''notes'', ZDefault (JStr []) (ZOptional ZString)),
      (js ''language'', ZDefault (JStr (js ''en'')) (ZEnum [js ''en'', js ''es''])),
      (js ''sessionId'', ZDefault (JStr []) (ZOptional ZString)),
      (js ''vin'', ZDefault (JStr []) (ZOptional ZString)),
      (js ''mileage'', ZDefault (JStr []) (ZOptional ZString))]"

text \<open>The element schemas of \<open>specs.items\<close>, \<open>connectorHints\<close> and \<open>steps\<close>, inline in the source.\<close>

definition SpecItemSchema :: "'n zschema" where
  "SpecItemSchema = ZObject
     [(js ''name'', BilingualText),
      (js ''expectedRange'', ZString),
      (js ''unit'', ZString),
      (js ''note'', BilingualText),
      (js ''estimated'', ZBoolean)]"

definition ConnectorHintSchema :: "'n zschema" where
  "ConnectorHintSchema = ZObject
     [(js ''label'', BilingualText),
      (js ''test'', BilingualText),
      (js ''expectedRange'', ZString),
      (js ''estimated'', ZBoolean),
      (js ''notes'', BilingualText)]"

definition StepSchema :: "'n zschema" where
  "StepSchema = ZObject
     [(js ''id'', ZString),
      (js ''title'', BilingualText),
      (js ''purpose'', BilingualText),
      (js ''procedure'', BilingualTextArray),
      (js ''connectorHints'', ZArray ConnectorHintSchema),
      (js ''passCriteria'', BilingualTextArray),
      (js ''failCriteria'', BilingualTextArray),
      (js ''nextOnPass'', ZNullable ZString),
      (js ''nextOnFail'', ZNullable ZString)]"

definition DiagnosticPlanSchema :: "'n zschema" where
  "DiagnosticPlanSchema = ZObject
     [(js ''version'', ZString),
      (js ''language'', ZEnum [js ''en'', js ''es'']),
      (js ''vehicle'', ZObject
         [(js ''make'', ZString),
          (js ''model'', ZString),
          (js ''year'', ZString),
          (js ''engine'', ZString),
          (js ''vin'', ZString),
          (js ''mileage'', ZString)]),
      (js ''concern'', ZObject
         [(js ''dtcs'', ZArray ZString),
          (js ''symptom'', ZString),
          (js ''notes'', ZString)]),
      (js ''overview'', BilingualText),
      (js ''disclaimers'', BilingualText),
      (js ''safetyNotes'', BilingualTextArray),
      (js ''specs'', ZObject
         [(js ''labeledAsEstimated'', ZBoolean),
          (js ''items'', ZArray SpecItemSchema)]),
      (js ''steps'', ZArray StepSchema),
      (js ''firstStepId'', ZString),
      (js ''sessionId'', ZString)]"


section \<open>The route handler\<close>

text \<open>
  What the handler reaches outside the repository is a parameter: the credential of the
  environment, \<open>JSON.parse\<close> (\<open>Inl\<close> carries the message of the \<open>SyntaxError\<close>),
  \<open>JSON.stringify(v, null, 2)\<close>, zod's error map and the \<open>message\<close> of a \<open>ZodError\<close>, and the
  provider call \<open>openai.responses.create\<close>, which threads a state of its own so that two
  calls with the same prompt may answer differently.
\<close>

datatype thrown = Thrown_Error jstring | Thrown_Value jstring

datatype reply = Returned "jstring option" | Rejected thrown

record ('n, 's) env =
  OPENAI_API_KEY :: "jstring option"
  json_parse :: "jstring \<Rightarrow> jstring + 'n json"
  json_stringify :: "'n json \<Rightarrow> jstring"
  zod_error_map :: "zcode \<Rightarrow> jstring"
  zod_error_message :: "zissue list \<Rightarrow> jstring"
  responses_create :: "'s \<Rightarrow> jstring \<Rightarrow> reply \<times> 's"

text \<open>The request, as far as the handler reads it: the outcome of \<open>await req.json()\<close>.\<close>

record 'n request =
  req_json :: "thrown + 'n json"

record 'n response =
  status :: nat
  body :: "'n json"

text \<open>The world the handler acts on: the provider's state and the prompts sent so far.\<close>

record 's world =
  provider :: 's
  sent :: "jstring list"

definition call :: "('n, 's) env \<Rightarrow> 's world \<Rightarrow> jstring \<Rightarrow> reply \<times> 's world" where
  "call env w input =
     (let (r, s) = responses_create env (provider w) input
      in (r, \<lparr>provider = s, sent = sent w @ [input]\<rparr>))"

subsection \<open>\<open>zodErrToShortString\<close>\<close>

text \<open>
  The values \<open>lastErr\<close> holds: \<open>null\<close>, the \<open>SyntaxError\<close> of \<open>JSON.parse\<close> with its message,
  or the \<open>ZodError\<close> of \<open>safeParse\<close> with its issues.
\<close>

datatype last_err = NoErr | ParseErr jstring | SchemaErr "zissue list"

fun join :: "jstring \<Rightarrow> jstring list \<Rightarrow> jstring" where
  "join sep [] = []"
| "join sep [x] = x"
| "join sep (x # y # ys) = x @ sep @ join sep (y # ys)"

definition digit :: "nat \<Rightarrow> unit16" where
  "digit d = of_nat (48 + d)"

function decimal :: "nat \<Rightarrow> jstring" where
  "decimal n = (if n < 10 then [digit n] else decimal (n div 10) @ [digit (n mod 10)])"
  by pat_completeness auto
termination
  by (relation "measure id") auto

declare decimal.simps [simp del]

fun pkey_string :: "pkey \<Rightarrow> jstring" where
  "pkey_string (Key k) = k"
| "pkey_string (Idx i) = decimal i"

text \<open>\<open>String(err)\<close> for the values \<open>lastErr\<close> can hold.\<close>

fun String_err :: "('n, 's) env \<Rightarrow> last_err \<Rightarrow> jstring" where
  "String_err env NoErr = js ''null''"
| "String_err env (ParseErr m) = (if m = [] then js ''SyntaxError'' else js ''SyntaxError: '' @ m)"
| "String_err env (SchemaErr is) = zod_error_message env is"

definition render_issue :: "zissue \<Rightarrow> jstring" where
  "render_issue i =
     (let p = join (js ''.'') (map pkey_string (path i))
      in (if p = [] then js ''(root)'' else p) @ js '': '' @ message i)"

text \<open>\<open>err?.issues\<close>: only a \<open>ZodError\<close> has issues.\<close>

fun err_issues :: "last_err \<Rightarrow> zissue list option" where
  "err_issues NoErr = None"
| "err_issues (ParseErr m) = None"
| "err_issues (SchemaErr is) = Some is"

definition zodErrToShortString :: "('n, 's) env \<Rightarrow> last_err \<Rightarrow> jstring" where
  "zodErrToShortString env err =
     (case err_issues err of
        None \<Rightarrow> String_err env err
      | Some is \<Rightarrow>
          if is = [] then String_err env err
          else join (js ''; '') (map render_issue (take 8 is)))"

subsection \<open>The prompt\<close>

text \<open>The fixed text of the template literal, line by line, up to the serialized case input.\<close>

definition template_lines :: "string list" where
  \<open>template_lines =
     [''You are generating a structured automotive diagnostic plan.'',
      '''',
      ''Return ONLY valid JSON. No markdown. No backticks. No commentary.'',
      ''The JSON MUST match this structure and include ALL required keys:'',
      '''',
      ''{'',
      ''  "version": "1.0",'',
      ''  "language": "en" | "es",'',
      ''  "vehicle": { "make": string, "model": string, "year": string, "engine": string, "vin": string, "mileage": string },'',
      ''  "concern": { "dtcs": string[], "symptom": string, "notes": string },'',
      ''  "overview": { "en": string, "es": string },'',
      ''  "disclaimers": { "en": string, "es": string },'',
      ''  "safetyNotes": { "en": string[], "es": string[] },'',
      ''  "specs": {'',
      ''    "labeledAsEstimated": boolean,'',
      ''    "items": ['',
      ''      { "name": { "en": string, "es": string }, "expectedRange": string, "unit": string, "note": { "en": string, "es": string }, "estimated": boolean }'',
      ''    ]'',
      ''  },'',
      ''  "steps": ['',
      ''    {'',
      ''      "id": string,'',
      ''      "title": { "en": string, "es": string },'',
      ''      "purpose": { "en": string, "es": string },'',
      ''      "procedure": { "en": string[], "es": string[] },'',
      ''      "connectorHints": ['',
      ''        {'',
      ''          "label": { "en": string, "es": string },'',
      ''          "test": { "en": string, "es": string },'',
      ''          "expectedRange": string,'',
      ''          "estimated": boolean,'',
      ''          "notes": { "en": string, "es": string }'',
      ''        }'',
      ''      ],'',
      ''      "passCriteria": { "en": string[], "es": string[] },'',
      ''      "failCriteria": { "en": string[], "es": string[] },'',
      ''      "nextOnPass": string | null,'',
      ''      "nextOnFail": string | null'',
      ''    }'',
      ''  ],'',
      ''  "firstStepId": string,'',
      ''  "sessionId": string'',
      ''}'',
      '''',
      ''Rules:'',
      ''- If VIN or mileage are unknown, set them to "" (empty string). Do NOT omit.'',
      ''- Use estimated specs/ranges only; mark estimated=true and include "estimated" label in notes.'',
      ''- NO OEM wiring diagrams. You may reference: "Refer to OEM wiring diagram (OEM/Alldata/Mitchell) if available."'',
      ''- Include bilingual text in both en and es ALWAYS, even if language is "en" or "es".'',
      ''- Keep steps practical and safe. Include at least 5 steps.'',
      ''- Use stable step ids like "step-1", "step-2", etc.'',
      ''- Set firstStepId to "step-1".'',
      ''- sessionId must echo the provided sessionId (or "" if none).'',
      '''',
      ''Here is the case input:'']\<close>

definition prompt_head :: jstring where
  "prompt_head = js (CHR 0x0A # concat (map (\<lambda>l. l @ [CHR 0x0A]) template_lines))"

definition nullish_or :: "'n json option \<Rightarrow> 'n json \<Rightarrow> 'n json" where
  "nullish_or v d = (case v of None \<Rightarrow> d | Some JNull \<Rightarrow> d | Some x \<Rightarrow> x)"

definition lang_of :: "'n json \<Rightarrow> jstring" where
  "lang_of input =
     (if field (js ''language'') input = Some (JStr (js ''es'')) then js ''es'' else js ''en'')"

definition case_input :: "'n json \<Rightarrow> 'n json" where
  "case_input input = object_literal
     [(js ''make'', field (js ''make'') input),
      (js ''model'', field (js ''model'') input),
      (js ''year'', field (js ''year'') input),
      (js ''engine'', field (js ''engine'') input),
      (js ''dtcs'', field (js ''dtcs'') input),
      (js ''symptom'', field (js ''symptom'') input),
      (js ''notes'', field (js ''notes'') input),
      (js ''language'', Some (JStr (lang_of input))),
      (js ''sessionId'', Some (nullish_or (field (js ''sessionId'') input) (JStr []))),
      (js ''vin'', Some (nullish_or (field (js ''vin'') input) (JStr []))),
      (js ''mileage'', Some (nullish_or (field (js ''mileage'') input) (JStr [])))]"

definition build_prompt :: "('n, 's) env \<Rightarrow> 'n json \<Rightarrow> jstring" where
  "build_prompt env input =
     trim (prompt_head @ json_stringify env (case_input input) @ js [CHR 0x0A])"

definition repair_prompt :: "('n, 's) env \<Rightarrow> jstring \<Rightarrow> last_err \<Rightarrow> jstring" where
  "repair_prompt env prompt lastErr =
     prompt
     @ js [CHR 0x0A, CHR 0x0A] @ js ''Your previous JSON failed validation with these issues:''
     @ js [CHR 0x0A] @ zodErrToShortString env lastErr
     @ js [CHR 0x0A, CHR 0x0A]
     @ js ''Return ONLY corrected JSON that satisfies the structure exactly. Do not omit required keys.''"

subsection \<open>Extraction, the two attempts and \<open>POST\<close>\<close>

text \<open>
  One pass over a raw model text: strip the fences, take the brace block when there is one,
  parse, validate. \<open>Inl\<close> is the value assigned to \<open>lastErr\<close>, \<open>Inr\<close> is \<open>validated.data\<close>.
\<close>

definition json_block :: "jstring \<Rightarrow> jstring" where
  "json_block rawText =
     (let cleaned = stripJsonFences rawText
      in case extractFirstJsonObject cleaned of None \<Rightarrow> cleaned | Some b \<Rightarrow> b)"

definition check_output :: "('n, 's) env \<Rightarrow> jstring \<Rightarrow> last_err + 'n json option" where
  "check_output env rawText =
     (case json_parse env (json_block rawText) of
        Inl m \<Rightarrow> Inl (ParseErr m)
      | Inr parsed \<Rightarrow>
          (case safeParse (zod_error_map env) DiagnosticPlanSchema parsed of
             Inl is \<Rightarrow> Inl (SchemaErr is)
           | Inr data \<Rightarrow> Inr data))"

text \<open>\<open>(response as any).output_text ?? ""\<close>\<close>

definition raw_text :: "jstring option \<Rightarrow> jstring" where
  "raw_text out = (case out of None \<Rightarrow> [] | Some t \<Rightarrow> t)"

definition json_response :: "'n json \<Rightarrow> nat \<Rightarrow> 'n response" where
  "json_response b st = \<lparr>status = st, body = b\<rparr>"

definition plan_response :: "'n json option \<Rightarrow> 'n response" where
  "plan_response data =
     json_response (object_literal [(js ''ok'', Some (JBool True)), (js ''plan'', data)]) 200"

definition failure_response :: "('n, 's) env \<Rightarrow> last_err \<Rightarrow> jstring \<Rightarrow> 'n response" where
  "failure_response env lastErr rawText =
     json_response
       (object_literal
          [(js ''ok'', Some (JBool False)),
           (js ''error'', Some (JStr (js ''Model did not return valid JSON matching schema''))),
           (js ''detail'', Some (JStr (zodErrToShortString env lastErr))),
           (js ''raw'', Some (JStr rawText))])
       500"

definition missing_key_response :: "'n response" where
  "missing_key_response =
     json_response
       (object_literal
          [(js ''ok'', Some (JBool False)),
           (js ''error'', Some (JStr (js ''Missing OPENAI_API_KEY in .env.local'')))])
       500"

definition catch_response :: "thrown \<Rightarrow> 'n response" where
  "catch_response err =
     json_response
       (object_literal
          [(js ''ok'', Some (JBool False)),
           (js ''error'', Some (JStr (js ''Diagnose failed''))),
           (js ''detail'', Some (JStr (case err of Thrown_Error m \<Rightarrow> m | Thrown_Value s \<Rightarrow> s)))])
       400"

datatype 'n outcome =
    Respond "'n response"
  | Threw thrown
  | Exhausted jstring last_err

text \<open>
  The loop \<open>for (let attempt = 1; attempt <= 2; attempt++)\<close> with its variables \<open>rawText\<close> and
  \<open>lastErr\<close>; \<open>Exhausted\<close> is the fall-through after the loop, \<open>Threw\<close> an exception of the
  provider call, which leaves the loop for the handler's \<open>catch\<close>.
\<close>

function attempts ::
  "('n, 's) env \<Rightarrow> jstring \<Rightarrow> nat \<Rightarrow> jstring \<Rightarrow> last_err \<Rightarrow> 's world \<Rightarrow> 'n outcome \<times> 's world" where
  "attempts env prompt attempt rawText lastErr w =
     (if attempt \<le> 2 then
        (case call env w (if attempt = 1 then prompt else repair_prompt env prompt lastErr) of
           (Rejected e, w') \<Rightarrow> (Threw e, w')
         | (Returned out, w') \<Rightarrow>
             (let rawText' = raw_text out
              in case check_output env rawText' of
                   Inl err \<Rightarrow> attempts env prompt (attempt + 1) rawText' err w'
                 | Inr data \<Rightarrow> (Respond (plan_response data), w')))
      else (Exhausted rawText lastErr, w))"
  by pat_completeness auto
termination
  by (relation "measure (\<lambda>(env, prompt, attempt, rawText, lastErr, w). 3 - attempt)") auto

declare attempts.simps [simp del]

text \<open>
  \<open>DiagnosticInputSchema.parse\<close> throws the \<open>ZodError\<close> of an invalid body, and every exception
  ends in the \<open>catch\<close> of the handler. An object schema has no \<open>undefined\<close> output, so the
  branch \<open>Inr None\<close> (reading a property of \<open>undefined\<close>) is never taken.
\<close>

definition POST :: "('n, 's) env \<Rightarrow> 'n request \<Rightarrow> 's world \<Rightarrow> 'n response \<times> 's world" where
  "POST env req w =
     (if OPENAI_API_KEY env = None \<or> OPENAI_API_KEY env = Some [] then (missing_key_response, w)
      else
        (case req_json req of
           Inl err \<Rightarrow> (catch_response err, w)
         | Inr b \<Rightarrow>
             (case parse (zod_error_map env) DiagnosticInputSchema b of
                Inl is \<Rightarrow> (catch_response (Thrown_Error (zod_error_message env is)), w)
              | Inr None \<Rightarrow> (catch_response (Thrown_Error (js ''TypeError'')), w)
              | Inr (Some input) \<Rightarrow>
                  (case attempts env (build_prompt env input) 1 [] NoErr w of
                     (Respond r, w') \<Rightarrow> (r, w')
                   | (Threw err, w') \<Rightarrow> (catch_response err, w')
                   | (Exhausted rawText lastErr, w') \<Rightarrow>
                       (failure_response env lastErr rawText, w')))))"


section \<open>Properties of a plan\<close>

text \<open>
  \<open>conforms schema v\<close>: the value \<open>v\<close> has the types the schema declares, and each of its
  objects carries declared keys only, in declaration order (a declared key may be absent).
\<close>

function conforms :: "'n zschema \<Rightarrow> 'n json \<Rightarrow> bool"
  and conforms_fields :: "(jstring \<times> 'n zschema) list \<Rightarrow> (jstring \<times> 'n json) list \<Rightarrow> bool" where
  "conforms ZString v = (case v of JStr s \<Rightarrow> True | _ \<Rightarrow> False)"
| "conforms ZBoolean v = (case v of JBool b \<Rightarrow> True | _ \<Rightarrow> False)"
| "conforms (ZEnum opts) v = (case v of JStr s \<Rightarrow> s \<in> set opts | _ \<Rightarrow> False)"
| "conforms (ZArray s) v = (case v of JArr xs \<Rightarrow> list_all (conforms s) xs | _ \<Rightarrow> False)"
| "conforms (ZObject shape) v = (case v of JObj kvs \<Rightarrow> conforms_fields shape kvs | _ \<Rightarrow> False)"
| "conforms (ZNullable s) v = (v = JNull \<or> conforms s v)"
| "conforms (ZOptional s) v = conforms s v"
| "conforms (ZDefault d s) v = conforms s v"
| "conforms_fields [] kvs = (kvs = [])"
| "conforms_fields ((k, s) # shape) [] = True"
| "conforms_fields ((k, s) # shape) ((k', x) # rest) =
     ((k' = k \<and> conforms s x \<and> conforms_fields shape rest)
      \<or> conforms_fields shape ((k', x) # rest))"
  by pat_completeness auto
termination
  by (relation "measure (\<lambda>a. case a of
        Inl (s, v) \<Rightarrow> size s
      | Inr (shape, kvs) \<Rightarrow> size_list (size_prod (\<lambda>k. 0) size) shape)") auto

text \<open>The bilingual fields of a plan, as the schema places them.\<close>

definition has :: "('n json \<Rightarrow> bool) \<Rightarrow> 'n json option \<Rightarrow> bool" where
  "has P v = (case v of None \<Rightarrow> False | Some x \<Rightarrow> P x)"

definition is_string :: "'n json \<Rightarrow> bool" where
  "is_string v = (case v of JStr s \<Rightarrow> True | _ \<Rightarrow> False)"

definition is_array_of :: "('n json \<Rightarrow> bool) \<Rightarrow> 'n json \<Rightarrow> bool" where
  "is_array_of P v = (case v of JArr xs \<Rightarrow> list_all P xs | _ \<Rightarrow> False)"

definition is_bilingual_text :: "'n json \<Rightarrow> bool" where
  "is_bilingual_text v = (has is_string (field (js ''en'') v) \<and> has is_string (field (js ''es'') v))"

definition is_bilingual_array :: "'n json \<Rightarrow> bool" where
  "is_bilingual_array v =
     (has (is_array_of is_string) (field (js ''en'') v)
      \<and> has (is_array_of is_string) (field (js ''es'') v))"

definition item_bilingual :: "'n json \<Rightarrow> bool" where
  "item_bilingual item =
     (has is_bilingual_text (field (js ''name'') item)
      \<and> has is_bilingual_text (field (js ''note'') item))"

definition hint_bilingual :: "'n json \<Rightarrow> bool" where
  "hint_bilingual hint =
     (has is_bilingual_text (field (js ''label'') hint)
      \<and> has is_bilingual_text (field (js ''test'') hint)
      \<and> has is_bilingual_text (field (js ''notes'') hint))"

definition step_bilingual :: "'n json \<Rightarrow> bool" where
  "step_bilingual step =
     (has is_bilingual_text (field (js ''title'') step)
      \<and> has is_bilingual_text (field (js ''purpose'') step)
      \<and> has is_bilingual_array (field (js ''procedure'') step)
      \<and> has (is_array_of hint_bilingual) (field (js ''connectorHints'') step)
      \<and> has is_bilingual_array (field (js ''passCriteria'') step)
      \<and> has is_bilingual_array (field (js ''failCriteria'') step))"

definition plan_bilingual :: "'n json \<Rightarrow> bool" where
  "plan_bilingual plan =
     (has is_bilingual_text (field (js ''overview'') plan)
      \<and> has is_bilingual_text (field (js ''disclaimers'') plan)
      \<and> has is_bilingual_array (field (js ''safetyNotes'') plan)
      \<and> has (\<lambda>specs. has (is_array_of item_bilingual) (field (js ''items'') specs))
            (field (js ''specs'') plan)
      \<and> has (is_array_of step_bilingual) (field (js ''steps'') plan))"

text \<open>\<open>v.length\<close> of an array \<open>v\<close>.\<close>

definition array_length :: "'n json option \<Rightarrow> nat option" where
  "array_length v = (case v of Some (JArr xs) \<Rightarrow> Some (length xs) | _ \<Rightarrow> None)"


section \<open>Concrete requests and replies\<close>

text \<open>The required fields of scenario A of the specification, the optional ones left out.\<close>

definition minimal_fields :: "(jstring \<times> 'n json) list" where
  "minimal_fields =
     [(js ''make'', JStr (js ''Honda'')),
      (js ''model'', JStr (js ''Civic'')),
      (js ''year'', JStr (js ''2015'')),
      (js ''engine'', JStr (js ''1.8L'')),
      (js ''dtcs'', JArr (map JStr [js ''P0420''])),
      (js ''symptom'', JStr (js ''Check engine light on''))]"

text \<open>The default messages of zod 3 for the issue codes above.\<close>

fun type_name :: "ztype \<Rightarrow> jstring" where
  "type_name TString = js ''string''"
| "type_name TNumber = js ''number''"
| "type_name TBoolean = js ''boolean''"
| "type_name TNull = js ''null''"
| "type_name TUndefined = js ''undefined''"
| "type_name TArray = js ''array''"
| "type_name TObject = js ''object''"

definition join_values :: "jstring list \<Rightarrow> jstring" where
  "join_values opts = join (js '' | '') (map (\<lambda>v. [0x27] @ v @ [0x27]) opts)"

fun zod3_error_map :: "zcode \<Rightarrow> jstring" where
  "zod3_error_map (InvalidType e r) =
     (if r = TUndefined then js ''Required''
      else js ''Expected '' @ type_name e @ js '', received '' @ type_name r)"
| "zod3_error_map (InvalidEnumType opts r) =
     (if r = TUndefined then js ''Required''
      else js ''Expected '' @ join_values opts @ js '', received '' @ type_name r)"
| "zod3_error_map (InvalidEnumValue opts s) =
     js ''Invalid enum value. Expected '' @ join_values opts @ js '', received '' @ [0x27] @ s @ [0x27]"

text \<open>
  Scenario A of the specification: the request body, the input the schema makes of it and
  the text \<open>JSON.stringify(..., null, 2)\<close> gives for the case input.
\<close>

definition scenario_body :: "nat json" where
  "scenario_body = JObj (minimal_fields @ [(js ''notes'', JStr []), (js ''language'', JStr (js ''en''))])"

definition scenario_input :: "nat json" where
  "scenario_input = JObj
       [(js ''make'', JStr (js ''Honda'')),
        (js ''model'', JStr (js ''Civic'')),
        (js ''year'', JStr (js ''2015'')),
        (js ''engine'', JStr (js ''1.8L'')),
        (js ''dtcs'', JArr
          [JStr (js ''P0420'')]),
        (js ''symptom'', JStr (js ''Check engine light on'')),
        (js ''notes'', JStr []),
        (js ''language'', JStr (js ''en'')),
        (js ''sessionId'', JStr []),
        (js ''vin'', JStr []),
        (js ''mileage'', JStr [])]"

definition scenario_case_text :: jstring where
  \<open>scenario_case_text = js (concat
     [''{'' @ [CHR 0x0A],
      ''  "make": "Honda",'' @ [CHR 0x0A],
      ''  "model": "Civic",'' @ [CHR 0x0A],
      ''  "year": "2015",'' @ [CHR 0x0A],
      ''  "engine": "1.8L",'' @ [CHR 0x0A],
      ''  "dtcs": ['' @ [CHR 0x0A],
      ''    "P0420"'' @ [CHR 0x0A],
      ''  ],'' @ [CHR 0x0A],
      ''  "symptom": "Check engine light on",'' @ [CHR 0x0A],
      ''  "notes": "",'' @ [CHR 0x0A],
      ''  "language": "en",'' @ [CHR 0x0A],
      ''  "sessionId": "",'' @ [CHR 0x0A],
      ''  "vin": "",'' @ [CHR 0x0A],
      ''  "mileage": ""'' @ [CHR 0x0A],
      ''}''])\<close>

text \<open>
  A reply of the model: a plan with one step, \<open>firstStepId\<close> "none" and a key \<open>extra\<close> that the
  schema does not declare; the value \<open>JSON.parse\<close> gives for it, and the validated plan.
\<close>

definition plan_text :: jstring where
  \<open>plan_text = js ''{"version":"1.0","language":"en","vehicle":{"make":"Honda","model":"Civic","year":"2015","engine":"1.8L","vin":"","mileage":""},"concern":{"dtcs":["P0420"],"symptom":"Check engine light on","notes":""},"overview":{"en":"","es":""},"disclaimers":{"en":"","es":""},"safetyNotes":{"en":[],"es":[]},"specs":{"labeledAsEstimated":true,"items":[]},"steps":[{"id":"step-1","title":{"en":"Scan","es":"Escanear"},"purpose":{"en":"","es":""},"procedure":{"en":[],"es":[]},"connectorHints":[],"passCriteria":{"en":[],"es":[]},"failCriteria":{"en":[],"es":[]},"nextOnPass":null,"nextOnFail":null}],"firstStepId":"none","sessionId":"","extra":1}''\<close>

definition plan_parsed :: "nat json" where
  "plan_parsed = JObj
       [(js ''version'', JStr (js ''1.0'')),
        (js ''language'', JStr (js ''en'')),
        (js ''vehicle'', JObj
          [(js ''make'', JStr (js ''Honda'')),
           (js ''model'', JStr (js ''Civic'')),
           (js ''year'', JStr (js ''2015'')),
           (js ''engine'', JStr (js ''1.8L'')),
           (js ''vin'', JStr []),
           (js ''mileage'', JStr [])]),
        (js ''concern'', JObj
          [(js ''dtcs'', JArr
             [JStr (js ''P0420'')]),
           (js ''symptom'', JStr (js ''Check engine light on'')),
           (js ''notes'', JStr [])]),
        (js ''overview'', JObj
          [(js ''en'', JStr []),
           (js ''es'', JStr [])]),
        (js ''disclaimers'', JObj
          [(js ''en'', JStr []),
           (js ''es'', JStr [])]),
        (js ''safetyNotes'', JObj
          [(js ''en'', JArr []),
           (js ''es'', JArr [])]),
        (js ''specs'', JObj
          [(js ''labeledAsEstimated'', JBool True),
           (js ''items'', JArr [])]),
        (js ''steps'', JArr
          [JObj
             [(js ''id'', JStr (js ''step-1'')),
              (js ''title'', JObj
                [(js ''en'', JStr (js ''Scan'')),
                 (js ''es'', JStr (js ''Escanear''))]),
              (js ''purpose'', JObj
                [(js ''en'', JStr []),
                 (js ''es'', JStr [])]),
              (js ''procedure'', JObj
                [(js ''en'', JArr []),
                 (js ''es'', JArr [])]),
              (js ''connectorHints'', JArr []),
              (js ''passCriteria'', JObj
                [(js ''en'', JArr []),
                 (js ''es'', JArr [])]),
              (js ''failCriteria'', JObj
                [(js ''en'', JArr []),
                 (js ''es'', JArr [])]),
              (js ''nextOnPass'', JNull),
              (js ''nextOnFail'', JNull)]]),
        (js ''firstStepId'', JStr (js ''none'')),
        (js ''sessionId'', JStr []),
        (js ''extra'', JNum 1)]"

definition plan_validated :: "nat json" where
  "plan_validated = JObj
       [(js ''version'', JStr (js ''1.0'')),
        (js ''language'', JStr (js ''en'')),
        (js ''vehicle'', JObj
          [(js ''make'', JStr (js ''Honda'')),
           (js ''model'', JStr (js ''Civic'')),
           (js ''year'', JStr (js ''2015'')),
           (js ''engine'', JStr (js ''1.8L'')),
           (js ''vin'', JStr []),
           (js ''mileage'', JStr [])]),
        (js ''concern'', JObj
          [(js ''dtcs'', JArr
             [JStr (js ''P0420'')]),
           (js ''symptom'', JStr (js ''Check engine light on'')),
           (js ''notes'', JStr [])]),
        (js ''overview'', JObj
          [(js ''en'', JStr []),
           (js ''es'', JStr [])]),
        (js ''disclaimers'', JObj
          [(js ''en'', JStr []),
           (js ''es'', JStr [])]),
        (js ''safetyNotes'', JObj
          [(js ''en'', JArr []),
           (js ''es'', JArr [])]),
        (js ''specs'', JObj
          [(js ''labeledAsEstimated'', JBool True),
           (js ''items'', JArr [])]),
        (js ''steps'', JArr
          [JObj
             [(js ''id'', JStr (js ''step-1'')),
              (js ''title'', JObj
                [(js ''en'', JStr (js ''Scan'')),
                 (js ''es'', JStr (js ''Escanear''))]),
              (js ''purpose'', JObj
                [(js ''en'', JStr []),
                 (js ''es'', JStr [])]),
              (js ''procedure'', JObj
                [(js ''en'', JArr []),
                 (js ''es'', JArr [])]),
              (js ''connectorHints'', JArr []),
              (js ''passCriteria'', JObj
                [(js ''en'', JArr []),
                 (js ''es'', JArr [])]),
              (js ''failCriteria'', JObj
                [(js ''en'', JArr []),
                 (js ''es'', JArr [])]),
              (js ''nextOnPass'', JNull),
              (js ''nextOnFail'', JNull)]]),
        (js ''firstStepId'', JStr (js ''none'')),
        (js ''sessionId'', JStr [])]"

text \<open>
  \<open>JSON.parse\<close> on the three texts the scenarios use (the plan above, an empty object and
  the word \<open>hello\<close>, which is no JSON), and an environment whose provider answers from a script:
  the \<open>n\<close>-th call returns the \<open>n\<close>-th text, a call beyond the script is rejected.
\<close>

definition scenario_parse :: "jstring \<Rightarrow> jstring + nat json" where
  "scenario_parse s =
     (if s = plan_text then Inr plan_parsed
      else if s = js ''{}'' then Inr (JObj [])
      else Inl (js ''Unexpected token h in JSON at position 0''))"

definition scripted :: "jstring list \<Rightarrow> nat \<Rightarrow> jstring \<Rightarrow> reply \<times> nat" where
  "scripted replies n prompt =
     (if n < length replies then Returned (Some (replies ! n))
      else Rejected (Thrown_Error (js ''fetch failed'')), Suc n)"

definition scenario_env :: "jstring list \<Rightarrow> (nat, nat) env" where
  "scenario_env replies =
     \<lparr>OPENAI_API_KEY = Some (js ''sk-test''),
      json_parse = scenario_parse,
      json_stringify = (\<lambda>v. if v = scenario_input then scenario_case_text else []),
      zod_error_map = zod3_error_map,
      zod_error_message = (\<lambda>is. js ''ZodError''),
      responses_create = scripted replies\<rparr>"

definition scenario_request :: "nat request" where
  "scenario_request = \<lparr>req_json = Inr scenario_body\<rparr>"

definition start :: "nat world" where
  "start = \<lparr>provider = 0, sent = []\<rparr>"

text \<open>The issues zod reports for the empty object against the plan schema: every key is missing.\<close>

definition empty_object_issues :: "zissue list" where
  "empty_object_issues =
     [issue zod3_error_map [Key (js ''version'')] (InvalidType TString TUndefined),
      issue zod3_error_map [Key (js ''language'')] (InvalidEnumType [js ''en'', js ''es''] TUndefined),
      issue zod3_error_map [Key (js ''vehicle'')] (InvalidType TObject TUndefined),
      issue zod3_error_map [Key (js ''concern'')] (InvalidType TObject TUndefined),
      issue zod3_error_map [Key (js ''overview'')] (InvalidType TObject TUndefined),
      issue zod3_error_map [Key (js ''disclaimers'')] (InvalidType TObject TUndefined),
      issue zod3_error_map [Key (js ''safetyNotes'')] (InvalidType TObject TUndefined),
      issue zod3_error_map [Key (js ''specs'')] (InvalidType TObject TUndefined),
      issue zod3_error_map [Key (js ''steps'')] (InvalidType TArray TUndefined),
      issue zod3_error_map [Key (js ''firstStepId'')] (InvalidType TString TUndefined),
      issue zod3_error_map [Key (js ''sessionId'')] (InvalidType TString TUndefined)]"


section \<open>Brace extraction\<close>

lemma indexOf_first:
  "c \<notin> set pre \<Longrightarrow> indexOf (pre @ c # rest) c = int (length pre)"
  by (induction pre) (auto simp: Let_def)

lemma lastIndexOf_last:
  assumes "c \<notin> set post"
  shows "lastIndexOf (pre @ c # post) c = int (length pre)"
proof -
  have "rev (pre @ c # post) = rev post @ c # rev pre" by simp
  moreover have "c \<notin> set (rev post)" using assms by simp
  ultimately have "indexOf (rev (pre @ c # post)) c = int (length post)"
    using indexOf_first [of c "rev post" "rev pre"] by simp
  then show ?thesis by (simp add: lastIndexOf_def)
qed

lemma slice_middle:
  "slice (pre @ mid @ post) (int (length pre)) (int (length pre) + int (length mid)) = mid"
  by (simp add: slice_def Let_def min_def)

lemma extract_decomposed:
  assumes "lbrace \<notin> set pre" and "rbrace \<notin> set post"
  shows "extractFirstJsonObject (pre @ lbrace # mid @ rbrace # post) = Some (lbrace # mid @ [rbrace])"
proof -
  let ?s = "pre @ lbrace # mid @ rbrace # post"
  have st: "indexOf ?s lbrace = int (length pre)"
    using assms(1) by (rule indexOf_first)
  have "?s = (pre @ lbrace # mid) @ rbrace # post" by simp
  then have en: "lastIndexOf ?s rbrace = int (length (pre @ lbrace # mid))"
    using lastIndexOf_last [OF assms(2), of "pre @ lbrace # mid"] by simp
  have sl: "slice (pre @ (lbrace # mid @ [rbrace]) @ post) (int (length pre))
              (int (length pre) + int (length (lbrace # mid @ [rbrace]))) = lbrace # mid @ [rbrace]"
    by (rule slice_middle)
  have "slice ?s (int (length pre)) (int (length (pre @ lbrace # mid)) + 1) = lbrace # mid @ [rbrace]"
    using sl by (simp add: add.commute add.left_commute)
  then show ?thesis
    using st en by (simp add: extractFirstJsonObject_def Let_def)
qed

text \<open>
  Claim C5. Whenever a \<open>{\<close> occurs at an index before some \<open>}\<close> (hence before the last one),
  the string splits as prose without \<open>{\<close>, the first \<open>{\<close>, a middle part, the last \<open>}\<close>
  and prose without \<open>}\<close>, and \<open>extractFirstJsonObject\<close> returns exactly the part from the
  first \<open>{\<close> to the last \<open>}\<close>, both included.
\<close>

theorem extractFirstJsonObject_first_to_last:
  assumes "i < j" and "j < length s" and "s ! i = lbrace" and "s ! j = rbrace"
  shows "\<exists>pre mid post. s = pre @ lbrace # mid @ rbrace # post
           \<and> lbrace \<notin> set pre \<and> rbrace \<notin> set post
           \<and> extractFirstJsonObject s = Some (lbrace # mid @ [rbrace])"
proof -
  have "lbrace \<in> set s" using assms by (metis nth_mem order_less_trans)
  then obtain pre rest where s: "s = pre @ lbrace # rest" and pre: "lbrace \<notin> set pre"
    by (meson split_list_first)
  have le: "length pre \<le> i"
  proof (rule ccontr)
    assume "\<not> length pre \<le> i"
    then have "i < length pre" by simp
    then have "s ! i \<in> set pre" using s by (simp add: nth_append)
    then show False using pre assms(3) by simp
  qed
  have ne: "lbrace \<noteq> rbrace" by (simp add: lbrace_def rbrace_def)
  have "j - length pre - 1 < length rest" using assms(1,2) le s by auto
  moreover have "rest ! (j - length pre - 1) = rbrace"
    using assms(1,4) le s by (auto simp: nth_append nth_Cons')
  ultimately have "rbrace \<in> set rest" by (metis nth_mem)
  then obtain mid post where r: "rest = mid @ rbrace # post" and post: "rbrace \<notin> set post"
    by (meson split_list_last)
  have "s = pre @ lbrace # mid @ rbrace # post" using s r by simp
  moreover from extract_decomposed [OF pre post, of mid]
  have "extractFirstJsonObject s = Some (lbrace # mid @ [rbrace])" using s r by simp
  ultimately show ?thesis using pre post by blast
qed

theorem extractFirstJsonObject_first_to_last_witness:
  "(1::nat) < 3 \<and> 3 < length (js ''x{a}y'') \<and> js ''x{a}y'' ! 1 = lbrace \<and> js ''x{a}y'' ! 3 = rbrace
   \<and> (\<exists>pre mid post. js ''x{a}y'' = pre @ lbrace # mid @ rbrace # post
           \<and> lbrace \<notin> set pre \<and> rbrace \<notin> set post
           \<and> extractFirstJsonObject (js ''x{a}y'') = Some (lbrace # mid @ [rbrace]))"
proof -
  have h1: "(1::nat) < 3" by simp
  have h2: "3 < length (js ''x{a}y'')" by (simp add: js_def)
  have h3: "js ''x{a}y'' ! 1 = lbrace" by (simp add: js_def lbrace_def)
  have h4: "js ''x{a}y'' ! 3 = rbrace" by (simp add: js_def rbrace_def)
  from extractFirstJsonObject_first_to_last [OF h1 h2 h3 h4] h1 h2 h3 h4
  show ?thesis by (intro conjI)
qed

section \<open>Fence stripping\<close>

lemma fence_unfold: "fence = [0x60, 0x60, 0x60]"
  by (simp add: fence_def js_def)

lemma json_fence_unfold: "json_fence = [0x60, 0x60, 0x60, 0x6A, 0x73, 0x6F, 0x6E]"
  by (simp add: json_fence_def js_def)

lemma backtick_not_space: "\<not> is_space 0x60"
  by (simp add: is_space_def)

lemma canon_j_not_backtick: "canonicalize 0x6A \<noteq> canonicalize 0x60"
  by (simp add: canonicalize_def)

lemma canon_backtick_iff: "canonicalize 0x60 = canonicalize x \<longleftrightarrow> x = 0x60"
  by (auto simp: canonicalize_def)

lemma remove_json_fences_no_match:
  "\<not> sublist fence t \<Longrightarrow> remove_json_fences (t @ fence) = t @ fence"
proof (induction t)
  case Nil
  show ?case by (simp add: fence_unfold json_fence_unfold)
next
  case (Cons c cs)
  have nocs: "\<not> sublist fence cs" using Cons.prems by (simp add: sublist_Cons_right)
  have "\<not> ci_prefix json_fence (c # cs @ fence)"
  proof (cases cs)
    case Nil
    then show ?thesis by (simp add: fence_unfold json_fence_unfold canon_j_not_backtick)
  next
    case (Cons d ds)
    note outer = this
    show ?thesis
    proof (cases ds)
      case Nil
      then show ?thesis using outer
        by (simp add: fence_unfold json_fence_unfold canon_j_not_backtick)
    next
      case (Cons e es)
      have "\<not> prefix fence (c # cs)" using Cons.prems \<open>\<not> sublist fence (c # cs)\<close>
        by (simp add: sublist_Cons_right)
      then have "\<not> (c = 0x60 \<and> d = 0x60 \<and> e = 0x60)"
        using outer Cons by (simp add: fence_unfold)
      then show ?thesis using outer Cons
        by (auto simp: json_fence_unfold canon_backtick_iff)
    qed
  qed
  then show ?case using Cons.IH [OF nocs] by simp
qed

lemma remove_fences_trailing:
  "\<not> sublist fence t \<Longrightarrow> remove_fences (t @ fence) = t"
proof (induction t)
  case Nil
  show ?case by (simp add: fence_unfold)
next
  case (Cons c cs)
  have nocs: "\<not> sublist fence cs" using Cons.prems by (simp add: sublist_Cons_right)
  have ih: "remove_fences (cs @ fence) = cs" by (rule Cons.IH [OF nocs])
  show ?case
  proof (cases cs)
    case Nil
    then show ?thesis using ih by (auto simp: fence_unfold)
  next
    case (Cons d ds)
    note outer = this
    show ?thesis
    proof (cases ds)
      case Nil
      then show ?thesis using outer ih by (auto simp: fence_unfold)
    next
      case (Cons e es)
      have "\<not> prefix fence (c # cs)" using \<open>\<not> sublist fence (c # cs)\<close>
        by (simp add: sublist_Cons_right)
      then have "\<not> prefix fence (c # cs @ fence)"
        using outer Cons by (simp add: fence_unfold)
      then show ?thesis using ih by simp
    qed
  qed
qed

lemma dropWhile_space_before_fence:
  "dropWhile is_space (inner @ fence) = dropWhile is_space inner @ fence"
proof (cases "\<exists>x\<in>set inner. \<not> is_space x")
  case True
  then show ?thesis by (auto simp: dropWhile_append1)
next
  case False
  then have "dropWhile is_space inner = []" by simp
  moreover have "dropWhile is_space (inner @ fence) = dropWhile is_space fence"
    using False by (simp add: dropWhile_append2)
  moreover have "dropWhile is_space fence = fence"
    by (simp add: fence_unfold backtick_not_space)
  ultimately show ?thesis by simp
qed

lemma trim_dropWhile: "trim (dropWhile is_space s) = trim s"
  by (simp add: trim_def)

lemma remove_json_fences_leading:
  "remove_json_fences (json_fence @ rest) = remove_json_fences (dropWhile is_space rest)"
  by (simp add: json_fence_unfold canonicalize_def)

text \<open>
  Claim C6 (as amended). For a string made of the opening fence \<open>```json\<close>, inner content in
  which no run of three backticks occurs, and the closing fence \<open>```\<close>, \<open>stripJsonFences\<close>
  returns the inner content without its surrounding white space.
\<close>

theorem stripJsonFences_fenced:
  assumes "\<not> sublist fence inner"
  shows "stripJsonFences (json_fence @ inner @ fence) = trim inner"
proof -
  let ?t = "dropWhile is_space inner"
  have "sublist ?t inner" by (rule sublist_dropWhile)
  then have not: "\<not> sublist fence ?t"
    using assms sublist_order.order.trans by blast
  have "remove_json_fences (json_fence @ inner @ fence)
          = remove_json_fences (dropWhile is_space (inner @ fence))"
    by (rule remove_json_fences_leading)
  also have "\<dots> = remove_json_fences (?t @ fence)"
    by (simp only: dropWhile_space_before_fence)
  also have "\<dots> = ?t @ fence"
    using not by (rule remove_json_fences_no_match)
  finally have "remove_fences (remove_json_fences (json_fence @ inner @ fence)) = ?t"
    using remove_fences_trailing [OF not] by simp
  then show ?thesis by (simp add: stripJsonFences_def trim_dropWhile)
qed

theorem stripJsonFences_fenced_witness:
  "\<not> sublist fence (js '' {}'') \<and>
   stripJsonFences (json_fence @ js '' {}'' @ fence) = js ''{}''"
proof -
  have h: "\<not> sublist fence (js '' {}'')"
    by (simp add: fence_unfold js_def sublist_code prefix_code)
  have t: "trim (js '' {}'') = js ''{}''"
    by (simp add: trim_def js_def is_space_def)
  show ?thesis using h stripJsonFences_fenced [OF h] by (simp only: t simp_thms)
qed

lemma strip_ex_step1: "remove_json_fences (js ''```jsona```b```'') = js ''a```b```''"
  by (simp add: js_def json_fence_def canonicalize_def is_space_def)

lemma strip_ex_step2: "remove_fences (js ''a```b```'') = js ''ab''"
  by (simp add: js_def fence_def)

lemma strip_ex_step3: "trim (js ''ab'') = js ''ab''"
  by (simp add: js_def trim_def is_space_def)

text \<open>
  Claim C6 as stated fails: both replacements are global, so a run of three backticks inside
  the inner content is deleted as well. For \<open>```jsona```b```\<close> the result is \<open>ab\<close>, not the
  inner content \<open>a```b\<close>.
\<close>

theorem stripJsonFences_inner_fence_counterexample:
  "stripJsonFences (js ''```json'' @ js ''a```b'' @ js ''```'') = js ''ab''
   \<and> trim (js ''a```b'') = js ''a```b''
   \<and> js ''ab'' \<noteq> js ''a```b''"
proof -
  have cat: "js ''```json'' @ js ''a```b'' @ js ''```'' = js ''```jsona```b```''"
    by (simp add: js_def)
  have "stripJsonFences (js ''```jsona```b```'') = js ''ab''"
    unfolding stripJsonFences_def by (simp only: strip_ex_step1 strip_ex_step2 strip_ex_step3)
  then have a: "stripJsonFences (js ''```json'' @ js ''a```b'' @ js ''```'') = js ''ab''"
    by (simp only: cat)
  have b: "trim (js ''a```b'') = js ''a```b''"
    by (simp add: trim_def js_def is_space_def)
  have c: "js ''ab'' \<noteq> js ''a```b''" by (simp add: js_def)
  from a b c show ?thesis by (intro conjI)
qed

section \<open>Facts about parsing with a schema\<close>

lemma merge_object_Inl_nonempty:
  assumes "\<And>k js. (k, Inl js) \<in> set pairs \<Longrightarrow> js \<noteq> []"
    and "merge_object pairs = Inl is"
  shows "is \<noteq> []"
proof -
  from assms(2) obtain k r where in_pairs: "(k, r) \<in> set pairs" and "isl r"
    and eq: "is = concat (map (\<lambda>(k, r). issues_of r) pairs)"
    by (auto simp: merge_object_def list_ex_iff split: if_splits)
  then obtain js where r: "r = Inl js" by (auto simp: isl_def)
  then have "js \<noteq> []" using assms(1) in_pairs by blast
  moreover have "set js \<subseteq> set is"
    using in_pairs r eq by (force simp: issues_of_def)
  ultimately show ?thesis by auto
qed

lemma merge_array_Inl_nonempty:
  assumes "\<And>js. Inl js \<in> set rs \<Longrightarrow> js \<noteq> []"
    and "merge_array rs = Inl is"
  shows "is \<noteq> []"
proof -
  from assms(2) obtain r where in_rs: "r \<in> set rs" and "isl r"
    and eq: "is = concat (map issues_of rs)"
    by (auto simp: merge_array_def list_ex_iff split: if_splits)
  then obtain js where r: "r = Inl js" by (auto simp: isl_def)
  then have "js \<noteq> []" using assms(1) in_rs by blast
  moreover have "set js \<subseteq> set is"
    using in_rs r eq by (force simp: issues_of_def)
  ultimately show ?thesis by auto
qed

lemma zparse_Inl_nonempty: "zparse em s p v = Inl is \<Longrightarrow> is \<noteq> []"
proof (induction em s p v arbitrary: "is" rule: zparse.induct)
  case (1 em p v)
  then show ?case by (auto split: option.splits json.splits)
next
  case (2 em p v)
  then show ?case by (auto split: option.splits json.splits)
next
  case (3 em opts p v)
  then show ?case by (auto split: option.splits json.splits if_splits)
next
  case (4 em s p v)
  show ?case
  proof (cases v)
    case None
    with 4 show ?thesis by auto
  next
    case (Some x)
    show ?thesis
    proof (cases x)
      case (JArr xs)
      have "merge_array (map (\<lambda>(i, x). zparse em s (p @ [Idx i]) (Some x)) (enumerate 0 xs)) = Inl is"
        using 4(2) Some JArr by simp
      then show ?thesis
      proof (rule merge_array_Inl_nonempty [rotated])
        fix js
        assume "Inl js \<in> set (map (\<lambda>(i, x). zparse em s (p @ [Idx i]) (Some x)) (enumerate 0 xs))"
        then obtain i y where "(i, y) \<in> set (enumerate 0 xs)"
          and "zparse em s (p @ [Idx i]) (Some y) = Inl js" by auto
        then show "js \<noteq> []" using 4(1) [OF Some JArr] by blast
      qed
    qed (use 4 Some in auto)
  qed
next
  case (5 em shape p v)
  show ?case
  proof (cases v)
    case None
    with 5 show ?thesis by auto
  next
    case (Some x)
    show ?thesis
    proof (cases x)
      case (JObj kvs)
      have "merge_object (map (\<lambda>(k, s). (k, zparse em s (p @ [Key k]) (map_of kvs k))) shape) = Inl is"
        using 5(2) Some JObj by simp
      then show ?thesis
      proof (rule merge_object_Inl_nonempty [rotated])
        fix k js
        assume "(k, Inl js) \<in> set (map (\<lambda>(k, s). (k, zparse em s (p @ [Key k]) (map_of kvs k))) shape)"
        then obtain s where "(k, s) \<in> set shape"
          and "zparse em s (p @ [Key k]) (map_of kvs k) = Inl js" by auto
        then show "js \<noteq> []" using 5(1) [OF Some JObj] by blast
      qed
    qed (use 5 Some in auto)
  qed
next
  case (6 em s p v)
  then show ?case by (auto split: if_splits)
next
  case (7 em s p v)
  then show ?case by (auto split: if_splits)
next
  case (8 em d s p v)
  then show ?case by (auto split: if_splits)
qed

lemma zparse_Some_defined: "zparse em s p (Some x) = Inr r \<Longrightarrow> r \<noteq> None"
proof (induction s arbitrary: r)
  case (ZArray s)
  then show ?case by (auto simp: merge_array_def split: json.splits if_splits)
next
  case (ZObject shape)
  then show ?case by (auto simp: merge_object_def split: json.splits if_splits)
qed (auto split: json.splits if_splits)

lemma merge_object_Inr_all:
  "merge_object pairs = Inr out \<Longrightarrow> (k, r) \<in> set pairs \<Longrightarrow> \<exists>x. r = Inr x"
  by (cases r) (auto simp: merge_object_def list_ex_iff split: if_splits)

lemma merge_object_Inr_out:
  "merge_object pairs = Inr out \<Longrightarrow>
   out = Some (JObj (concat (map (\<lambda>(k, r). case r of Inr (Some x) \<Rightarrow> [(k, x)] | _ \<Rightarrow> []) pairs)))"
  by (auto simp: merge_object_def split: if_splits)

lemma map_of_collected:
  assumes "distinct (map fst pairs)" and "(k, Inr x) \<in> set pairs"
  shows "map_of (concat (map (\<lambda>(k, r). case r of Inr (Some x) \<Rightarrow> [(k, x)] | _ \<Rightarrow> []) pairs)) k = x"
  using assms
proof (induction pairs)
  case Nil
  then show ?case by simp
next
  case (Cons a pairs)
  obtain k' r' where a: "a = (k', r')" by (cases a)
  let ?g = "\<lambda>(k, r). case r of Inr (Some x) \<Rightarrow> [(k, x)] | _ \<Rightarrow> []"
  have keys: "fst ` set (concat (map ?g pairs)) \<subseteq> fst ` set pairs"
    by (auto split: sum.splits option.splits) force
  show ?case
  proof (cases "(k, Inr x) = a")
    case True
    then have k: "k' = k" and r: "r' = Inr x" using a by auto
    have "k \<notin> fst ` set pairs" using Cons.prems(1) a k by auto
    then have "k \<notin> fst ` set (concat (map ?g pairs))" using keys by blast
    then have none: "map_of (concat (map ?g pairs)) k = None"
      by (simp add: map_of_eq_None_iff)
    show ?thesis using a k r none by (cases x) simp_all
  next
    case False
    then have mem: "(k, Inr x) \<in> set pairs" using Cons.prems(2) by auto
    then have "k \<in> fst ` set pairs" by force
    then have ne: "k' \<noteq> k" using Cons.prems(1) a by auto
    have ih: "map_of (concat (map ?g pairs)) k = x"
      using Cons.IH Cons.prems(1) mem by simp
    show ?thesis using a ne ih by (auto split: sum.splits option.splits)
  qed
qed

lemma zparse_object_field:
  assumes "zparse em (ZObject shape) p v = Inr out"
    and "distinct (map fst shape)" and "(k, s) \<in> set shape"
  shows "\<exists>kvs d. v = Some (JObj kvs) \<and> out = Some d
           \<and> zparse em s (p @ [Key k]) (map_of kvs k) = Inr (field k d)"
proof -
  from assms(1) obtain kvs where v: "v = Some (JObj kvs)"
    by (auto split: option.splits json.splits)
  let ?pairs = "map (\<lambda>(k, s). (k, zparse em s (p @ [Key k]) (map_of kvs k))) shape"
  let ?g = "\<lambda>(k, r). case r of Inr (Some x) \<Rightarrow> [(k, x)] | _ \<Rightarrow> []"
  have m: "merge_object ?pairs = Inr out" using assms(1) v by simp
  have mem: "(k, zparse em s (p @ [Key k]) (map_of kvs k)) \<in> set ?pairs"
    using assms(3) by force
  from merge_object_Inr_all [OF m mem] obtain x
    where x: "zparse em s (p @ [Key k]) (map_of kvs k) = Inr x" by blast
  have out: "out = Some (JObj (concat (map ?g ?pairs)))"
    using m by (rule merge_object_Inr_out)
  have eq: "map fst ?pairs = map fst shape" by (induction shape) auto
  have d: "distinct (map fst ?pairs)" unfolding eq by (rule assms(2))
  have "map_of (concat (map ?g ?pairs)) k = x"
    using d mem x by (intro map_of_collected) simp_all
  then have "field k (JObj (concat (map ?g ?pairs))) = x" by (simp add: field_def)
  then show ?thesis using v out x by blast
qed

lemma zparse_array_elems:
  assumes "zparse em (ZArray s) p v = Inr out"
  shows "\<exists>xs ys. v = Some (JArr xs) \<and> out = Some (JArr ys) \<and> length ys = length xs
           \<and> (\<forall>i<length xs. zparse em s (p @ [Idx i]) (Some (xs ! i)) = Inr (Some (ys ! i)))"
proof -
  from assms obtain xs where v: "v = Some (JArr xs)"
    by (auto split: option.splits json.splits)
  let ?rs = "map (\<lambda>(i, x). zparse em s (p @ [Idx i]) (Some x)) (enumerate 0 xs)"
  let ?ys = "map (\<lambda>r. case r of Inr (Some x) \<Rightarrow> x | _ \<Rightarrow> JNull) ?rs"
  have m: "merge_array ?rs = Inr out" using assms v by simp
  then have all: "\<forall>r\<in>set ?rs. \<not> isl r" and out: "out = Some (JArr ?ys)"
    by (auto simp: merge_array_def list_ex_iff split: if_splits)
  have "zparse em s (p @ [Idx i]) (Some (xs ! i)) = Inr (Some (?ys ! i))" if "i < length xs" for i
  proof -
    have ri: "?rs ! i = zparse em s (p @ [Idx i]) (Some (xs ! i))"
      using that by (simp add: nth_enumerate_eq)
    have "?rs ! i \<in> set ?rs" using that by (intro nth_mem) simp
    then have "\<not> isl (?rs ! i)" using all by blast
    then have "\<not> isl (zparse em s (p @ [Idx i]) (Some (xs ! i)))" by (simp only: ri simp_thms)
    then obtain x where x: "zparse em s (p @ [Idx i]) (Some (xs ! i)) = Inr x"
      by (cases "zparse em s (p @ [Idx i]) (Some (xs ! i))") auto
    then obtain y where y: "x = Some y" using zparse_Some_defined by (cases x) blast+
    have "?ys ! i = y" using that ri x y by (simp add: nth_enumerate_eq)
    then show ?thesis using x y by simp
  qed
  then show ?thesis using v out by auto
qed

lemma zparse_string_array:
  "zparse em (ZArray ZString) p (Some (JArr (map JStr cs))) = Inr (Some (JArr (map JStr cs)))"
proof -
  have rs: "map (\<lambda>(i, x). zparse em ZString (p @ [Idx i]) (Some x)) (enumerate n (map JStr cs))
          = map (\<lambda>c. Inr (Some (JStr c))) cs" for n
    by (induction cs arbitrary: n) simp_all
  have "zparse em (ZArray ZString) p (Some (JArr (map JStr cs)))
          = merge_array (map (\<lambda>(i, x). zparse em ZString (p @ [Idx i]) (Some x))
              (enumerate 0 (map JStr cs)))"
    by (simp only: zparse.simps option.case json.case)
  also have "\<dots> = merge_array (map (\<lambda>c. Inr (Some (JStr c))) cs)"
    by (simp only: rs)
  also have "\<dots> = Inr (Some (JArr (map JStr cs)))"
    by (simp add: merge_array_def list_ex_iff comp_def)
  finally show ?thesis .
qed

lemma zparse_String_Inr:
  "zparse em ZString p v = Inr out \<longleftrightarrow> (\<exists>s. v = Some (JStr s) \<and> out = Some (JStr s))"
  by (auto split: option.splits json.splits)

lemma zparse_object_defined:
  "zparse em (ZObject shape) p v = Inr out \<Longrightarrow> \<exists>kvs. out = Some (JObj kvs)"
  by (auto simp: merge_object_def split: option.splits json.splits if_splits)

lemma conforms_fields_skip:
  "conforms_fields shape kvs \<Longrightarrow> conforms_fields ((k, s) # shape) kvs"
  by (cases kvs) auto

lemma conforms_fields_collected:
  assumes "\<And>k s x. (k, s) \<in> set shape \<Longrightarrow> F k s = Inr (Some x) \<Longrightarrow> conforms s x"
  shows "conforms_fields shape
           (concat (map (\<lambda>(k, s). case F k s of Inr (Some x) \<Rightarrow> [(k, x)] | _ \<Rightarrow> []) shape))"
  using assms
proof (induction shape)
  case Nil
  show ?case by simp
next
  case (Cons a shape)
  obtain k s where a: "a = (k, s)" by (cases a)
  let ?rest = "concat (map (\<lambda>(k, s). case F k s of Inr (Some x) \<Rightarrow> [(k, x)] | _ \<Rightarrow> []) shape)"
  have ih: "conforms_fields shape ?rest"
    by (rule Cons.IH) (use Cons.prems in auto)
  show ?case
  proof (cases "\<exists>x. F k s = Inr (Some x)")
    case True
    then obtain x where x: "F k s = Inr (Some x)" by blast
    then have "conforms s x" using Cons.prems [of k s x] a by simp
    then show ?thesis using a x ih by simp
  next
    case False
    then have "(case F k s of Inr (Some x) \<Rightarrow> [(k, x)] | _ \<Rightarrow> []) = []"
      by (auto split: sum.splits option.splits)
    then show ?thesis using a ih by (simp add: conforms_fields_skip)
  qed
qed

lemma zparse_conforms: "zparse em s p v = Inr (Some out) \<Longrightarrow> conforms s out"
proof (induction em s p v arbitrary: out rule: zparse.induct)
  case (1 em p v)
  then show ?case by (auto split: option.splits json.splits)
next
  case (2 em p v)
  then show ?case by (auto split: option.splits json.splits)
next
  case (3 em opts p v)
  then show ?case by (auto split: option.splits json.splits if_splits)
next
  case (4 em s p v)
  from zparse_array_elems [OF 4(2)] obtain xs ys
    where v: "v = Some (JArr xs)" and out: "out = JArr ys" and len: "length ys = length xs"
      and el: "\<forall>i<length xs. zparse em s (p @ [Idx i]) (Some (xs ! i)) = Inr (Some (ys ! i))"
    by auto
  have "conforms s (ys ! i)" if "i < length ys" for i
  proof -
    have "(i, xs ! i) \<in> set (enumerate 0 xs)"
      using that len by (simp add: in_set_enumerate_eq)
    then show ?thesis using 4(1) [OF v refl _ refl] el that len by auto
  qed
  then show ?case using out by (simp add: list_all_length)
next
  case (5 em shape p v)
  from 5(2) obtain kvs where v: "v = Some (JObj kvs)"
    by (auto split: option.splits json.splits)
  let ?F = "\<lambda>k s. zparse em s (p @ [Key k]) (map_of kvs k)"
  have m: "merge_object (map (\<lambda>(k, s). (k, ?F k s)) shape) = Inr (Some out)"
    using 5(2) v by simp
  have o1: "out = JObj (concat (map (\<lambda>(k, r). case r of Inr (Some x) \<Rightarrow> [(k, x)] | _ \<Rightarrow> [])
                     (map (\<lambda>(k, s). (k, ?F k s)) shape)))"
    using merge_object_Inr_out [OF m] by (simp only: option.inject)
  have eq: "map (\<lambda>(k, r). case r of Inr (Some x) \<Rightarrow> [(k, x)] | _ \<Rightarrow> [])
                     (map (\<lambda>(k, s). (k, ?F k s)) shape)
        = map (\<lambda>(k, s). case ?F k s of Inr (Some x) \<Rightarrow> [(k, x)] | _ \<Rightarrow> []) shape"
    by (induction shape) auto
  have out: "out = JObj (concat (map (\<lambda>(k, s). case ?F k s of Inr (Some x) \<Rightarrow> [(k, x)] | _ \<Rightarrow> []) shape))"
    using o1 by (simp only: eq)
  have "conforms_fields shape
          (concat (map (\<lambda>(k, s). case ?F k s of Inr (Some x) \<Rightarrow> [(k, x)] | _ \<Rightarrow> []) shape))"
  proof (rule conforms_fields_collected)
    fix k s x
    assume "(k, s) \<in> set shape" and "?F k s = Inr (Some x)"
    then show "conforms s x" using 5(1) [OF v refl _ refl] by blast
  qed
  then show ?case using out by simp
next
  case (6 em s p v)
  then show ?case by (auto split: if_splits)
next
  case (7 em s p v)
  then show ?case by (auto split: if_splits)
next
  case (8 em d s p v)
  then show ?case by (auto split: if_splits)
qed

lemma object_field_has:
  assumes "zparse em (ZObject shape) p v = Inr r"
    and "distinct (map fst shape)" and "(k, s) \<in> set shape"
    and "\<And>q x y. zparse em s q x = Inr y \<Longrightarrow> has P y"
  shows "\<exists>d. r = Some d \<and> has P (field k d)"
proof -
  from zparse_object_field [OF assms(1,2,3)] obtain kvs d
    where "r = Some d" and "zparse em s (p @ [Key k]) (map_of kvs k) = Inr (field k d)"
    by blast
  then show ?thesis using assms(4) by blast
qed

lemma string_out: "zparse em ZString q x = Inr y \<Longrightarrow> has is_string y"
  by (auto simp: has_def is_string_def split: option.splits json.splits)

lemma array_out:
  assumes "\<And>q x y. zparse em s q x = Inr y \<Longrightarrow> has P y"
    and "zparse em (ZArray s) p v = Inr r"
  shows "has (is_array_of P) r"
proof -
  from zparse_array_elems [OF assms(2)] obtain xs ys
    where r: "r = Some (JArr ys)" and len: "length ys = length xs"
      and el: "\<forall>i<length xs. zparse em s (p @ [Idx i]) (Some (xs ! i)) = Inr (Some (ys ! i))"
    by blast
  have "P (ys ! i)" if "i < length ys" for i
    using assms(1) [of "p @ [Idx i]" "Some (xs ! i)" "Some (ys ! i)"] el that len
    by (simp add: has_def)
  then show ?thesis using r by (simp add: has_def is_array_of_def list_all_length)
qed

lemma BilingualText_out:
  assumes "zparse em BilingualText q x = Inr y"
  shows "has is_bilingual_text y"
proof -
  have d: "distinct (map fst [(js ''en'', ZString :: 'a zschema), (js ''es'', ZString)])"
    by (simp add: js_def)
  note z = assms [unfolded BilingualText_def]
  have "\<exists>v. y = Some v \<and> has is_string (field (js ''en'') v)"
    by (rule object_field_has [OF z d, where s = ZString]) (simp, erule string_out)
  moreover have "\<exists>v. y = Some v \<and> has is_string (field (js ''es'') v)"
    by (rule object_field_has [OF z d, where s = ZString]) (simp, erule string_out)
  ultimately show ?thesis by (auto simp: has_def is_bilingual_text_def)
qed

lemma string_array_out:
  "zparse em (ZArray ZString) q x = Inr y \<Longrightarrow> has (is_array_of is_string) y"
  by (rule array_out [OF string_out])

lemma BilingualTextArray_out:
  assumes "zparse em BilingualTextArray q x = Inr y"
  shows "has is_bilingual_array y"
proof -
  have d: "distinct (map fst [(js ''en'', ZArray ZString :: 'a zschema), (js ''es'', ZArray ZString)])"
    by (simp add: js_def)
  note z = assms [unfolded BilingualTextArray_def]
  have "\<exists>v. y = Some v \<and> has (is_array_of is_string) (field (js ''en'') v)"
    by (rule object_field_has [OF z d, where s = "ZArray ZString"]) (simp, erule string_array_out)
  moreover have "\<exists>v. y = Some v \<and> has (is_array_of is_string) (field (js ''es'') v)"
    by (rule object_field_has [OF z d, where s = "ZArray ZString"]) (simp, erule string_array_out)
  ultimately show ?thesis by (auto simp: has_def is_bilingual_array_def)
qed

lemma SpecItemSchema_out:
  assumes "zparse em SpecItemSchema q x = Inr y"
  shows "has item_bilingual y"
proof -
  note z = assms [unfolded SpecItemSchema_def]
  have d: "distinct (map fst
     [(js ''name'', BilingualText :: 'a zschema),
      (js ''expectedRange'', ZString),
      (js ''unit'', ZString),
      (js ''note'', BilingualText),
      (js ''estimated'', ZBoolean)])"
    by (simp add: js_def)
  have "\<exists>v. y = Some v \<and> has is_bilingual_text (field (js ''name'') v)"
    by (rule object_field_has [OF z d, where s = BilingualText]) (simp, erule BilingualText_out)
  moreover have "\<exists>v. y = Some v \<and> has is_bilingual_text (field (js ''note'') v)"
    by (rule object_field_has [OF z d, where s = BilingualText]) (simp, erule BilingualText_out)
  ultimately show ?thesis by (auto simp: has_def item_bilingual_def)
qed

lemma ConnectorHintSchema_out:
  assumes "zparse em ConnectorHintSchema q x = Inr y"
  shows "has hint_bilingual y"
proof -
  note z = assms [unfolded ConnectorHintSchema_def]
  have d: "distinct (map fst
     [(js ''label'', BilingualText :: 'a zschema),
      (js ''test'', BilingualText),
      (js ''expectedRange'', ZString),
      (js ''estimated'', ZBoolean),
      (js ''notes'', BilingualText)])"
    by (simp add: js_def)
  have "\<exists>v. y = Some v \<and> has is_bilingual_text (field (js ''label'') v)"
    by (rule object_field_has [OF z d, where s = BilingualText]) (simp, erule BilingualText_out)
  moreover have "\<exists>v. y = Some v \<and> has is_bilingual_text (field (js ''test'') v)"
    by (rule object_field_has [OF z d, where s = BilingualText]) (simp, erule BilingualText_out)
  moreover have "\<exists>v. y = Some v \<and> has is_bilingual_text (field (js ''notes'') v)"
    by (rule object_field_has [OF z d, where s = BilingualText]) (simp, erule BilingualText_out)
  ultimately show ?thesis by (auto simp: has_def hint_bilingual_def)
qed

lemma StepSchema_out:
  assumes "zparse em StepSchema q x = Inr y"
  shows "has step_bilingual y"
proof -
  note z = assms [unfolded StepSchema_def]
  have d: "distinct (map fst
     [(js ''id'', ZString :: 'a zschema),
      (js ''title'', BilingualText),
      (js ''purpose'', BilingualText),
      (js ''procedure'', BilingualTextArray),
      (js ''connectorHints'', ZArray ConnectorHintSchema),
      (js ''passCriteria'', BilingualTextArray),
      (js ''failCriteria'', BilingualTextArray),
      (js ''nextOnPass'', ZNullable ZString),
      (js ''nextOnFail'', ZNullable ZString)])"
    by (simp add: js_def)
  have hints: "\<And>q x y. zparse em (ZArray ConnectorHintSchema) q x = Inr y
                 \<Longrightarrow> has (is_array_of hint_bilingual) y"
    by (rule array_out [OF ConnectorHintSchema_out])
  have "\<exists>v. y = Some v \<and> has is_bilingual_text (field (js ''title'') v)"
    by (rule object_field_has [OF z d, where s = BilingualText]) (simp, erule BilingualText_out)
  moreover have "\<exists>v. y = Some v \<and> has is_bilingual_text (field (js ''purpose'') v)"
    by (rule object_field_has [OF z d, where s = BilingualText]) (simp, erule BilingualText_out)
  moreover have "\<exists>v. y = Some v \<and> has is_bilingual_array (field (js ''procedure'') v)"
    by (rule object_field_has [OF z d, where s = BilingualTextArray])
       (simp, erule BilingualTextArray_out)
  moreover have "\<exists>v. y = Some v \<and> has (is_array_of hint_bilingual) (field (js ''connectorHints'') v)"
    by (rule object_field_has [OF z d, where s = "ZArray ConnectorHintSchema"])
       (simp, erule hints)
  moreover have "\<exists>v. y = Some v \<and> has is_bilingual_array (field (js ''passCriteria'') v)"
    by (rule object_field_has [OF z d, where s = BilingualTextArray])
       (simp, erule BilingualTextArray_out)
  moreover have "\<exists>v. y = Some v \<and> has is_bilingual_array (field (js ''failCriteria'') v)"
    by (rule object_field_has [OF z d, where s = BilingualTextArray])
       (simp, erule BilingualTextArray_out)
  ultimately show ?thesis by (auto simp: has_def step_bilingual_def)
qed

lemma plan_keys_distinct:
  "distinct (map fst
     [(js ''version'', ZString :: 'a zschema),
      (js ''language'', ZEnum [js ''en'', js ''es'']),
      (js ''vehicle'', ZObject
         [(js ''make'', ZString),
          (js ''model'', ZString),
          (js ''year'', ZString),
          (js ''engine'', ZString),
          (js ''vin'', ZString),
          (js ''mileage'', ZString)]),
      (js ''concern'', ZObject
         [(js ''dtcs'', ZArray ZString),
          (js ''symptom'', ZString),
          (js ''notes'', ZString)]),
      (js ''overview'', BilingualText),
      (js ''disclaimers'', BilingualText),
      (js ''safetyNotes'', BilingualTextArray),
      (js ''specs'', ZObject
         [(js ''labeledAsEstimated'', ZBoolean),
          (js ''items'', ZArray SpecItemSchema)]),
      (js ''steps'', ZArray StepSchema),
      (js ''firstStepId'', ZString),
      (js ''sessionId'', ZString)])"
  by (simp add: js_def)

lemma specs_out:
  assumes "zparse em (ZObject
         [(js ''labeledAsEstimated'', ZBoolean),
          (js ''items'', ZArray SpecItemSchema)]) q x = Inr y"
  shows "has (\<lambda>specs. has (is_array_of item_bilingual) (field (js ''items'') specs)) y"
proof -
  have d: "distinct (map fst [(js ''labeledAsEstimated'', ZBoolean :: 'a zschema),
          (js ''items'', ZArray SpecItemSchema)])"
    by (simp add: js_def)
  have items: "\<And>q x y. zparse em (ZArray SpecItemSchema) q x = Inr y
                 \<Longrightarrow> has (is_array_of item_bilingual) y"
    by (rule array_out [OF SpecItemSchema_out])
  have "\<exists>v. y = Some v \<and> has (is_array_of item_bilingual) (field (js ''items'') v)"
    by (rule object_field_has [OF assms d, where s = "ZArray SpecItemSchema"])
       (simp, erule items)
  then show ?thesis by (auto simp: has_def)
qed

lemma DiagnosticPlanSchema_out:
  assumes "zparse em DiagnosticPlanSchema q x = Inr y"
  shows "has plan_bilingual y"
proof -
  note z = assms [unfolded DiagnosticPlanSchema_def]
  note d = plan_keys_distinct
  have steps: "\<And>q x y. zparse em (ZArray StepSchema) q x = Inr y
                 \<Longrightarrow> has (is_array_of step_bilingual) y"
    by (rule array_out [OF StepSchema_out])
  have "\<exists>v. y = Some v \<and> has is_bilingual_text (field (js ''overview'') v)"
    by (rule object_field_has [OF z d, where s = BilingualText]) (simp, erule BilingualText_out)
  moreover have "\<exists>v. y = Some v \<and> has is_bilingual_text (field (js ''disclaimers'') v)"
    by (rule object_field_has [OF z d, where s = BilingualText]) (simp, erule BilingualText_out)
  moreover have "\<exists>v. y = Some v \<and> has is_bilingual_array (field (js ''safetyNotes'') v)"
    by (rule object_field_has [OF z d, where s = BilingualTextArray])
       (simp, erule BilingualTextArray_out)
  moreover have "\<exists>v. y = Some v
      \<and> has (\<lambda>specs. has (is_array_of item_bilingual) (field (js ''items'') specs))
            (field (js ''specs'') v)"
    by (rule object_field_has [OF z d, where s = "ZObject
         [(js ''labeledAsEstimated'', ZBoolean),
          (js ''items'', ZArray SpecItemSchema)]"])
       (simp, erule specs_out)
  moreover have "\<exists>v. y = Some v \<and> has (is_array_of step_bilingual) (field (js ''steps'') v)"
    by (rule object_field_has [OF z d, where s = "ZArray StepSchema"]) (simp, erule steps)
  ultimately show ?thesis by (auto simp: has_def plan_bilingual_def)
qed

lemma DiagnosticPlanSchema_firstStepId:
  assumes "zparse em DiagnosticPlanSchema q (Some parsed) = Inr y"
  shows "\<exists>d s. y = Some d \<and> field (js ''firstStepId'') parsed = Some (JStr s)
           \<and> field (js ''firstStepId'') d = Some (JStr s)"
proof -
  note z = assms [unfolded DiagnosticPlanSchema_def]
  from zparse_object_field [OF z plan_keys_distinct, where k = "js ''firstStepId''" and s = ZString]
  obtain kvs d where p: "Some parsed = Some (JObj kvs)" and y: "y = Some d"
    and a: "zparse em ZString (q @ [Key (js ''firstStepId'')]) (map_of kvs (js ''firstStepId''))
           = Inr (field (js ''firstStepId'') d)"
    by auto
  from a obtain s where "map_of kvs (js ''firstStepId'') = Some (JStr s)"
    and "field (js ''firstStepId'') d = Some (JStr s)"
    unfolding zparse_String_Inr by auto
  then show ?thesis using p y by (auto simp: field_def)
qed

lemma DiagnosticPlanSchema_steps:
  assumes "zparse em DiagnosticPlanSchema q (Some parsed) = Inr y"
  shows "\<exists>d xs ys. y = Some d \<and> field (js ''steps'') parsed = Some (JArr xs)
           \<and> field (js ''steps'') d = Some (JArr ys) \<and> length ys = length xs"
proof -
  note z = assms [unfolded DiagnosticPlanSchema_def]
  from zparse_object_field [OF z plan_keys_distinct, where k = "js ''steps''" and s = "ZArray StepSchema"]
  obtain kvs d where p: "Some parsed = Some (JObj kvs)" and y: "y = Some d"
    and a: "zparse em (ZArray StepSchema) (q @ [Key (js ''steps'')]) (map_of kvs (js ''steps''))
           = Inr (field (js ''steps'') d)"
    by auto
  from zparse_array_elems [OF a] obtain xs ys where "map_of kvs (js ''steps'') = Some (JArr xs)"
    and "field (js ''steps'') d = Some (JArr ys)" and "length ys = length xs" by blast
  then show ?thesis using p y by (auto simp: field_def)
qed

section \<open>Defaults of the input schema\<close>

text \<open>
  Claim C7. An object that supplies the six required fields with the right types and leaves
  out \<open>notes\<close>, \<open>language\<close>, \<open>sessionId\<close>, \<open>vin\<close> and \<open>mileage\<close> parses, and the output carries
  the defaults \<open>notes = ""\<close>, \<open>language = "en"\<close>, \<open>sessionId = ""\<close>, \<open>vin = ""\<close>, \<open>mileage = ""\<close>
  (keys outside the schema are dropped).
\<close>

theorem DiagnosticInputSchema_defaults:
  assumes "map_of kvs (js ''make'') = Some (JStr vmake)"
    and "map_of kvs (js ''model'') = Some (JStr vmodel)"
    and "map_of kvs (js ''year'') = Some (JStr vyear)"
    and "map_of kvs (js ''engine'') = Some (JStr vengine)"
    and "map_of kvs (js ''dtcs'') = Some (JArr (map JStr vdtcs))"
    and "map_of kvs (js ''symptom'') = Some (JStr vsymptom)"
    and "map_of kvs (js ''notes'') = None"
    and "map_of kvs (js ''language'') = None"
    and "map_of kvs (js ''sessionId'') = None"
    and "map_of kvs (js ''vin'') = None"
    and "map_of kvs (js ''mileage'') = None"
  shows "parse em DiagnosticInputSchema (JObj kvs) =
           Inr (Some (JObj
             [(js ''make'', JStr vmake),
              (js ''model'', JStr vmodel),
              (js ''year'', JStr vyear),
              (js ''engine'', JStr vengine),
              (js ''dtcs'', JArr (map JStr vdtcs)),
              (js ''symptom'', JStr vsymptom),
              (js ''notes'', JStr (js '''')),
              (js ''language'', JStr (js ''en'')),
              (js ''sessionId'', JStr (js '''')),
              (js ''vin'', JStr (js '''')),
              (js ''mileage'', JStr (js ''''))]))"
proof -
  have e: "js '''' = []" by (simp add: js_def)
  show ?thesis
    unfolding parse_def DiagnosticInputSchema_def
    by (simp add: assms zparse_string_array merge_object_def e del: zparse.simps(4))
qed

theorem DiagnosticInputSchema_defaults_witness:
  "map_of (minimal_fields :: (jstring \<times> nat json) list) (js ''make'') = Some (JStr (js ''Honda''))
   \<and> map_of (minimal_fields :: (jstring \<times> nat json) list) (js ''model'') = Some (JStr (js ''Civic''))
   \<and> map_of (minimal_fields :: (jstring \<times> nat json) list) (js ''year'') = Some (JStr (js ''2015''))
   \<and> map_of (minimal_fields :: (jstring \<times> nat json) list) (js ''engine'') = Some (JStr (js ''1.8L''))
   \<and> map_of (minimal_fields :: (jstring \<times> nat json) list) (js ''dtcs'') = Some (JArr (map JStr [js ''P0420'']))
   \<and> map_of (minimal_fields :: (jstring \<times> nat json) list) (js ''symptom'')
         = Some (JStr (js ''Check engine light on''))
   \<and> map_of (minimal_fields :: (jstring \<times> nat json) list) (js ''notes'') = None
   \<and> map_of (minimal_fields :: (jstring \<times> nat json) list) (js ''language'') = None
   \<and> map_of (minimal_fields :: (jstring \<times> nat json) list) (js ''sessionId'') = None
   \<and> map_of (minimal_fields :: (jstring \<times> nat json) list) (js ''vin'') = None
   \<and> map_of (minimal_fields :: (jstring \<times> nat json) list) (js ''mileage'') = None
   \<and> parse zod3_error_map DiagnosticInputSchema (JObj (minimal_fields :: (jstring \<times> nat json) list)) =
           Inr (Some (JObj
             [(js ''make'', JStr (js ''Honda'')),
              (js ''model'', JStr (js ''Civic'')),
              (js ''year'', JStr (js ''2015'')),
              (js ''engine'', JStr (js ''1.8L'')),
              (js ''dtcs'', JArr (map JStr [js ''P0420''])),
              (js ''symptom'', JStr (js ''Check engine light on'')),
              (js ''notes'', JStr (js '''')),
              (js ''language'', JStr (js ''en'')),
              (js ''sessionId'', JStr (js '''')),
              (js ''vin'', JStr (js '''')),
              (js ''mileage'', JStr (js ''''))]))"
proof -
  let ?f = "minimal_fields :: (jstring \<times> nat json) list"
  have h1: "map_of ?f (js ''make'') = Some (JStr (js ''Honda''))"
    by (simp add: minimal_fields_def js_def)
  have h2: "map_of ?f (js ''model'') = Some (JStr (js ''Civic''))"
    by (simp add: minimal_fields_def js_def)
  have h3: "map_of ?f (js ''year'') = Some (JStr (js ''2015''))"
    by (simp add: minimal_fields_def js_def)
  have h4: "map_of ?f (js ''engine'') = Some (JStr (js ''1.8L''))"
    by (simp add: minimal_fields_def js_def)
  have h5: "map_of ?f (js ''dtcs'') = Some (JArr (map JStr [js ''P0420'']))"
    by (simp add: minimal_fields_def js_def)
  have h6: "map_of ?f (js ''symptom'') = Some (JStr (js ''Check engine light on''))"
    by (simp add: minimal_fields_def js_def)
  have h7: "map_of ?f (js ''notes'') = None"
    by (simp add: minimal_fields_def js_def)
  have h8: "map_of ?f (js ''language'') = None"
    by (simp add: minimal_fields_def js_def)
  have h9: "map_of ?f (js ''sessionId'') = None"
    by (simp add: minimal_fields_def js_def)
  have h10: "map_of ?f (js ''vin'') = None"
    by (simp add: minimal_fields_def js_def)
  have h11: "map_of ?f (js ''mileage'') = None"
    by (simp add: minimal_fields_def js_def)
  from DiagnosticInputSchema_defaults [OF h1 h2 h3 h4 h5 h6 h7 h8 h9 h10 h11, of zod3_error_map]
    h1 h2 h3 h4 h5 h6 h7 h8 h9 h10 h11
  show ?thesis by (intro conjI)
qed

section \<open>Unfolding the handler\<close>

lemma attempts_exhausted:
  "2 < attempt \<Longrightarrow> attempts env prompt attempt rawText lastErr w = (Exhausted rawText lastErr, w)"
  by (simp add: attempts.simps)

lemma attempts_second:
  "attempts env prompt (Suc (Suc 0)) rawText lastErr w =
     (case call env w (repair_prompt env prompt lastErr) of
        (Rejected e, w') \<Rightarrow> (Threw e, w')
      | (Returned out, w') \<Rightarrow>
          (case check_output env (raw_text out) of
             Inl err \<Rightarrow> (Exhausted (raw_text out) err, w')
           | Inr data \<Rightarrow> (Respond (plan_response data), w')))"
  by (subst attempts.simps)
     (simp add: attempts_exhausted Let_def split: prod.splits reply.splits sum.splits)

lemma attempts_first:
  "attempts env prompt (Suc 0) rawText lastErr w =
     (case call env w prompt of
        (Rejected e, w') \<Rightarrow> (Threw e, w')
      | (Returned out, w') \<Rightarrow>
          (case check_output env (raw_text out) of
             Inl err \<Rightarrow> attempts env prompt (Suc (Suc 0)) (raw_text out) err w'
           | Inr data \<Rightarrow> (Respond (plan_response data), w')))"
  by (subst attempts.simps)
     (simp add: Let_def split: prod.splits reply.splits sum.splits)

lemma call_sent: "call env w input = (r, w') \<Longrightarrow> sent w' = sent w @ [input]"
  by (auto simp: call_def split: prod.splits)

lemma POST_valid:
  assumes "OPENAI_API_KEY env = Some key" and "key \<noteq> []"
    and "req_json req = Inr b"
    and "parse (zod_error_map env) DiagnosticInputSchema b = Inr (Some input)"
  shows "POST env req w =
     (case call env w (build_prompt env input) of
        (Rejected e, w1) \<Rightarrow> (catch_response e, w1)
      | (Returned out1, w1) \<Rightarrow>
          (case check_output env (raw_text out1) of
             Inr data \<Rightarrow> (plan_response data, w1)
           | Inl err1 \<Rightarrow>
               (case call env w1 (repair_prompt env (build_prompt env input) err1) of
                  (Rejected e, w2) \<Rightarrow> (catch_response e, w2)
                | (Returned out2, w2) \<Rightarrow>
                    (case check_output env (raw_text out2) of
                       Inr data \<Rightarrow> (plan_response data, w2)
                     | Inl err2 \<Rightarrow> (failure_response env err2 (raw_text out2), w2)))))"
  using assms
  by (simp add: POST_def attempts_first attempts_second
      split: prod.splits reply.splits sum.splits)

lemma check_output_Inr:
  assumes "check_output env rawText = Inr data"
  shows "\<exists>parsed plan. json_parse env (json_block rawText) = Inr parsed
           \<and> safeParse (zod_error_map env) DiagnosticPlanSchema parsed = Inr (Some plan)
           \<and> data = Some plan"
proof -
  from assms obtain parsed where p: "json_parse env (json_block rawText) = Inr parsed"
    and s: "safeParse (zod_error_map env) DiagnosticPlanSchema parsed = Inr data"
    by (auto simp: check_output_def split: sum.splits)
  from s obtain kvs where "data = Some (JObj kvs)"
    unfolding safeParse_def DiagnosticPlanSchema_def by (blast dest: zparse_object_defined)
  then show ?thesis using p s by blast
qed

lemma check_output_Inl:
  assumes "check_output env rawText = Inl err"
  shows "(\<exists>m. json_parse env (json_block rawText) = Inl m \<and> err = ParseErr m)
       \<or> (\<exists>parsed is. json_parse env (json_block rawText) = Inr parsed
             \<and> safeParse (zod_error_map env) DiagnosticPlanSchema parsed = Inl is
             \<and> is \<noteq> [] \<and> err = SchemaErr is)"
  using assms
  by (auto simp: check_output_def safeParse_def split: sum.splits dest: zparse_Inl_nonempty)

lemma plan_response_Some:
  "plan_response (Some plan) =
     \<lparr>status = 200, body = JObj [(js ''ok'', JBool True), (js ''plan'', plan)]\<rparr>"
  by (simp add: plan_response_def json_response_def object_literal_def)

lemma failure_response_unfold:
  "failure_response env err rawText =
     \<lparr>status = 500,
      body = JObj [(js ''ok'', JBool False),
                   (js ''error'', JStr (js ''Model did not return valid JSON matching schema'')),
                   (js ''detail'', JStr (zodErrToShortString env err)),
                   (js ''raw'', JStr rawText)]\<rparr>"
  by (simp add: failure_response_def json_response_def object_literal_def)

section \<open>Strings without fences, and the scenarios evaluated\<close>

lemma remove_json_fences_no_backtick: "0x60 \<notin> set s \<Longrightarrow> remove_json_fences s = s"
proof (induction s)
  case Nil
  show ?case by simp
next
  case (Cons c cs)
  then have "c \<noteq> 0x60" by auto
  then have "\<not> ci_prefix json_fence (c # cs)"
    by (simp add: json_fence_unfold canon_backtick_iff)
  then show ?case using Cons by simp
qed

lemma remove_fences_no_backtick: "0x60 \<notin> set s \<Longrightarrow> remove_fences s = s"
proof (induction s)
  case Nil
  show ?case by simp
next
  case (Cons c cs)
  then have "c \<noteq> 0x60" by auto
  then have "\<not> prefix fence (c # cs)"
    by (simp add: fence_unfold)
  then show ?case using Cons by simp
qed

lemma trim_wrapped:
  assumes "m \<noteq> []" and "\<not> is_space (hd m)" and "\<not> is_space (last m)"
    and "\<forall>c\<in>set a. is_space c" and "\<forall>c\<in>set b. is_space c"
  shows "trim (a @ m @ b) = m"
proof -
  obtain x xs where m: "m = x # xs" using assms(1) by (cases m) auto
  have x: "\<not> is_space x" using assms(2) m by simp
  have front: "dropWhile is_space (a @ m @ b) = m @ b"
    using assms(4) x m by (simp add: dropWhile_append)
  obtain y ys where r: "rev m = y # ys" using assms(1) by (cases "rev m") auto
  have "y = last m" using r assms(1) by (metis last_rev list.sel(1) rev_rev_ident hd_rev)
  then have y: "\<not> is_space y" using assms(3) by simp
  have "dropWhile is_space (rev (m @ b)) = rev m"
    using assms(5) y r by (simp add: dropWhile_append)
  then show ?thesis by (simp add: trim_def front)
qed

lemma json_block_object:
  assumes "hd s = lbrace" and "last s = rbrace" and "1 < length s" and "0x60 \<notin> set s"
  shows "json_block s = s"
proof -
  obtain mid where s: "s = lbrace # mid @ [rbrace]"
  proof -
    from assms(3) obtain x xs where "s = x # xs" and "xs \<noteq> []" by (cases s) auto
    then have "s = hd s # butlast xs @ [last s]" by simp
    then show ?thesis using that assms(1,2) by metis
  qed
  have sp: "\<not> is_space lbrace" "\<not> is_space rbrace"
    by (simp_all add: is_space_def lbrace_def rbrace_def)
  have "trim s = s"
    using trim_wrapped [of s "[]" "[]"] s sp by simp
  then have st: "stripJsonFences s = s"
    using assms(4) by (simp add: stripJsonFences_def remove_json_fences_no_backtick
        remove_fences_no_backtick)
  have "extractFirstJsonObject s = Some s"
    using extract_decomposed [of "[]" "[]" mid] s by simp
  then show ?thesis by (simp add: json_block_def st)
qed

lemma sublist_join: "x \<in> set xs \<Longrightarrow> sublist x (join sep xs)"
proof (induction sep xs rule: join.induct)
  case (1 sep)
  then show ?case by simp
next
  case (2 sep y)
  then show ?case by simp
next
  case (3 sep y z zs)
  show ?case
  proof (cases "x = y")
    case True
    then show ?thesis by simp
  next
    case False
    then have "sublist x (join sep (z # zs))" using 3 by simp
    moreover have "sublist (join sep (z # zs)) ((y @ sep) @ join sep (z # zs))"
      by (rule sublist_append_leftI)
    ultimately have "sublist x ((y @ sep) @ join sep (z # zs))"
      by (rule sublist_order.order.trans)
    then show ?thesis by simp
  qed
qed

lemma scenario_input_parse:
  "parse zod3_error_map DiagnosticInputSchema scenario_body = Inr (Some scenario_input)"
  by (simp add: parse_def DiagnosticInputSchema_def scenario_body_def minimal_fields_def
      scenario_input_def merge_object_def merge_array_def js_def)

lemma plan_safeParse:
  "safeParse zod3_error_map DiagnosticPlanSchema plan_parsed = Inr (Some plan_validated)"
  by (simp add: safeParse_def DiagnosticPlanSchema_def StepSchema_def ConnectorHintSchema_def
      SpecItemSchema_def BilingualText_def BilingualTextArray_def plan_parsed_def
      plan_validated_def merge_object_def merge_array_def js_def)

lemma json_block_hello: "json_block (js ''hello'') = js ''hello''"
  by (simp add: json_block_def stripJsonFences_def trim_def extractFirstJsonObject_def
      lastIndexOf_def lbrace_def rbrace_def json_fence_def fence_def is_space_def
      canonicalize_def js_def)

lemma json_block_empty_object: "json_block (js ''{}'') = js ''{}''"
  by (simp add: json_block_def stripJsonFences_def trim_def extractFirstJsonObject_def
      lastIndexOf_def slice_def lbrace_def rbrace_def json_fence_def fence_def is_space_def
      canonicalize_def js_def)

lemma json_block_plan_text: "json_block plan_text = plan_text"
proof (rule json_block_object)
  show "hd plan_text = lbrace" by (simp add: plan_text_def js_def lbrace_def)
  show "last plan_text = rbrace" by (simp add: plan_text_def js_def rbrace_def)
  show "1 < length plan_text" by (simp add: plan_text_def js_def)
  show "0x60 \<notin> set plan_text" by (simp add: plan_text_def js_def)
qed

lemma scenario_parse_plan: "scenario_parse plan_text = Inr plan_parsed"
  by (simp add: scenario_parse_def)

lemma hello_not_plan: "js ''hello'' \<noteq> plan_text"
proof
  assume "js ''hello'' = plan_text"
  then have "length (js ''hello'') = length plan_text" by simp
  then show False by (simp add: plan_text_def js_def)
qed

lemma empty_not_plan: "js ''{}'' \<noteq> plan_text"
proof
  assume "js ''{}'' = plan_text"
  then have "length (js ''{}'') = length plan_text" by simp
  then show False by (simp add: plan_text_def js_def)
qed

lemma scenario_parse_hello:
  "scenario_parse (js ''hello'') = Inl (js ''Unexpected token h in JSON at position 0'')"
proof -
  have "js ''hello'' \<noteq> js ''{}''" by (simp add: js_def)
  then show ?thesis using hello_not_plan by (simp add: scenario_parse_def)
qed

lemma scenario_parse_empty: "scenario_parse (js ''{}'') = Inr (JObj [])"
  using empty_not_plan by (simp add: scenario_parse_def)

lemma empty_object_safeParse:
  "safeParse zod3_error_map DiagnosticPlanSchema (JObj []) = Inl empty_object_issues"
  by (simp add: safeParse_def DiagnosticPlanSchema_def BilingualText_def BilingualTextArray_def
      merge_object_def issues_of_def empty_object_issues_def)

lemma check_output_plan:
  "check_output (scenario_env rs) plan_text = Inr (Some plan_validated)"
  by (simp add: check_output_def json_block_plan_text scenario_env_def scenario_parse_plan
      plan_safeParse)

lemma check_output_hello:
  "check_output (scenario_env rs) (js ''hello'')
     = Inl (ParseErr (js ''Unexpected token h in JSON at position 0''))"
  by (simp add: check_output_def json_block_hello scenario_env_def scenario_parse_hello)

lemma check_output_empty:
  "check_output (scenario_env rs) (js ''{}'') = Inl (SchemaErr empty_object_issues)"
  by (simp add: check_output_def json_block_empty_object scenario_env_def scenario_parse_empty
      empty_object_safeParse)

lemma scenario_call:
  "n < length rs \<Longrightarrow>
   call (scenario_env rs) \<lparr>provider = n, sent = ps\<rparr> p
     = (Returned (Some (rs ! n)), \<lparr>provider = Suc n, sent = ps @ [p]\<rparr>)"
  by (simp add: call_def scenario_env_def scripted_def)

lemma scenario_key: "OPENAI_API_KEY (scenario_env rs) = Some (js ''sk-test'')"
  by (simp add: scenario_env_def)

lemma scenario_key_nonempty: "js ''sk-test'' \<noteq> []"
  by (simp add: js_def)

lemma scenario_req: "req_json scenario_request = Inr scenario_body"
  by (simp add: scenario_request_def)

lemma scenario_valid_input:
  "parse (zod_error_map (scenario_env rs)) DiagnosticInputSchema scenario_body
     = Inr (Some scenario_input)"
  by (simp add: scenario_env_def scenario_input_parse)

lemma case_input_scenario: "case_input scenario_input = scenario_input"
  by (simp add: case_input_def scenario_input_def field_def object_literal_def lang_of_def
      nullish_or_def js_def)

lemma scenario_prompt:
  "build_prompt (scenario_env rs) scenario_input
     = js (concat (map (\<lambda>l. l @ [CHR 0x0A]) template_lines)) @ scenario_case_text"
proof -
  let ?m = "js (concat (map (\<lambda>l. l @ [CHR 0x0A]) template_lines)) @ scenario_case_text"
  have ne: "scenario_case_text \<noteq> []" by (simp add: scenario_case_text_def js_def)
  have m: "?m \<noteq> []" using ne by simp
  have "hd (js (concat (map (\<lambda>l. l @ [CHR 0x0A]) template_lines))) = 0x59"
    by (simp add: template_lines_def js_def)
  moreover have "js (concat (map (\<lambda>l. l @ [CHR 0x0A]) template_lines)) \<noteq> []"
    by (simp add: template_lines_def js_def)
  ultimately have "hd ?m = 0x59" by simp
  then have h: "\<not> is_space (hd ?m)" by (simp add: is_space_def)
  have "last scenario_case_text = 0x7D" by (simp add: scenario_case_text_def js_def)
  then have "last ?m = 0x7D" using ne by simp
  then have l: "\<not> is_space (last ?m)" by (simp add: is_space_def)
  have nl: "\<forall>c\<in>set [0x0A :: unit16]. is_space c" by (simp add: is_space_def)
  have "trim ([0x0A] @ ?m @ [0x0A]) = ?m"
    using m h l nl nl by (rule trim_wrapped)
  moreover have "prompt_head @ scenario_case_text @ js [CHR 0x0A] = [0x0A] @ ?m @ [0x0A]"
    by (simp add: prompt_head_def js_def)
  ultimately show ?thesis
    by (simp add: build_prompt_def case_input_scenario scenario_env_def)
qed

lemma empty_object_detail:
  "join (js ''; '') (map render_issue (take 8 empty_object_issues))
     = js ''version: Required; language: Required; vehicle: Required; concern: Required; overview: Required; disclaimers: Required; safetyNotes: Required; specs: Required''"
  by (simp add: empty_object_issues_def render_issue_def issue_def js_def)

lemma ninth_issue: "render_issue (empty_object_issues ! 8) = js ''steps: Required''"
  by (simp add: empty_object_issues_def render_issue_def issue_def js_def)

section \<open>The handler's calls\<close>

lemma missing_key_response_unfold:
  "missing_key_response =
     \<lparr>status = 500,
      body = JObj [(js ''ok'', JBool False),
                   (js ''error'', JStr (js ''Missing OPENAI_API_KEY in .env.local''))]\<rparr>"
  by (simp add: missing_key_response_def json_response_def object_literal_def)

text \<open>
  Claim C3. With \<open>OPENAI_API_KEY\<close> unset, the handler answers \<open>ok: false\<close> with status 500 and
  leaves the world as it was: no prompt is sent to the provider.
\<close>

theorem POST_missing_credential:
  assumes "OPENAI_API_KEY env = None"
  shows "POST env req w =
           (\<lparr>status = 500,
             body = JObj [(js ''ok'', JBool False),
                          (js ''error'', JStr (js ''Missing OPENAI_API_KEY in .env.local''))]\<rparr>,
            w)
         \<and> sent (snd (POST env req w)) = sent w"
  using assms by (simp add: POST_def missing_key_response_unfold)

theorem POST_missing_credential_witness:
  "OPENAI_API_KEY (scenario_env [plan_text] \<lparr>OPENAI_API_KEY := None\<rparr>) = None
   \<and> POST (scenario_env [plan_text] \<lparr>OPENAI_API_KEY := None\<rparr>) scenario_request start =
           (\<lparr>status = 500,
             body = JObj [(js ''ok'', JBool False),
                          (js ''error'', JStr (js ''Missing OPENAI_API_KEY in .env.local''))]\<rparr>,
            start)
   \<and> sent (snd (POST (scenario_env [plan_text] \<lparr>OPENAI_API_KEY := None\<rparr>) scenario_request start))
         = sent start"
proof -
  have h: "OPENAI_API_KEY (scenario_env [plan_text] \<lparr>OPENAI_API_KEY := None\<rparr>) = None"
    by simp
  from POST_missing_credential [OF h, of scenario_request start] h
  show ?thesis by (intro conjI) simp_all
qed

lemma catch_response_unfold:
  "catch_response err =
     \<lparr>status = 400,
      body = JObj [(js ''ok'', JBool False),
                   (js ''error'', JStr (js ''Diagnose failed'')),
                   (js ''detail'', JStr (case err of Thrown_Error m \<Rightarrow> m | Thrown_Value s \<Rightarrow> s))]\<rparr>"
  by (simp add: catch_response_def json_response_def object_literal_def)

lemma POST_valid_sent:
  assumes "OPENAI_API_KEY env = Some key" and "key \<noteq> []"
    and "req_json req = Inr b"
    and "parse (zod_error_map env) DiagnosticInputSchema b = Inr (Some input)"
  shows "\<exists>calls. sent (snd (POST env req w)) = sent w @ calls \<and> length calls \<le> 2"
proof -
  let ?P = "build_prompt env input"
  note post = POST_valid [OF assms, of w]
  obtain r1 w1 where c1: "call env w ?P = (r1, w1)" by (cases "call env w ?P")
  have s1: "sent w1 = sent w @ [?P]" using c1 by (rule call_sent)
  show ?thesis
  proof (cases r1)
    case (Rejected e)
    then have "snd (POST env req w) = w1" using post c1 by simp
    then show ?thesis using s1 by simp
  next
    case (Returned out)
    show ?thesis
    proof (cases "check_output env (raw_text out)")
      case (Inr data)
      then have "snd (POST env req w) = w1" using post c1 Returned by simp
      then show ?thesis using s1 by simp
    next
      case (Inl err)
      obtain r2 w2 where c2: "call env w1 (repair_prompt env ?P err) = (r2, w2)"
        by (cases "call env w1 (repair_prompt env ?P err)")
      have s2: "sent w2 = sent w @ [?P, repair_prompt env ?P err]"
        using call_sent [OF c2] s1 by simp
      have "snd (POST env req w) = w2"
        using post c1 Returned Inl c2 by (simp split: reply.splits sum.splits)
      then show ?thesis using s2 by simp
    qed
  qed
qed

lemma POST_first_success:
  assumes "OPENAI_API_KEY env = Some key" and "key \<noteq> []"
    and "req_json req = Inr b"
    and "parse (zod_error_map env) DiagnosticInputSchema b = Inr (Some input)"
    and "call env w (build_prompt env input) = (Returned out, w1)"
    and "check_output env (raw_text out) = Inr data"
  shows "\<exists>plan. data = Some plan
           \<and> POST env req w
               = (\<lparr>status = 200, body = JObj [(js ''ok'', JBool True), (js ''plan'', plan)]\<rparr>, w1)"
proof -
  from check_output_Inr [OF assms(6)] obtain plan where "data = Some plan" by blast
  then show ?thesis
    using POST_valid [OF assms(1-4), of w] assms(5,6) by (simp add: plan_response_Some)
qed

lemma POST_retry_sent:
  assumes "OPENAI_API_KEY env = Some key" and "key \<noteq> []"
    and "req_json req = Inr b"
    and "parse (zod_error_map env) DiagnosticInputSchema b = Inr (Some input)"
    and "call env w (build_prompt env input) = (Returned out, w1)"
    and "check_output env (raw_text out) = Inl err"
  shows "sent (snd (POST env req w))
           = sent w @ [build_prompt env input, repair_prompt env (build_prompt env input) err]"
proof -
  let ?P = "build_prompt env input"
  have s1: "sent w1 = sent w @ [?P]" using assms(5) by (rule call_sent)
  obtain r2 w2 where c2: "call env w1 (repair_prompt env ?P err) = (r2, w2)"
    by (cases "call env w1 (repair_prompt env ?P err)")
  then have s2: "sent w2 = sent w @ [?P, repair_prompt env ?P err]"
    using call_sent [OF c2] s1 by simp
  have "snd (POST env req w) = w2"
    using POST_valid [OF assms(1-4), of w] assms(5,6) c2 by (simp split: reply.splits sum.splits)
  then show ?thesis using s2 by simp
qed

text \<open>
  Claim C1. For a request that passes input validation the handler sends at most two prompts.
  When the first reply's extracted JSON parses and validates, the response is
  \<open>{ok: true, plan}\<close> and the first prompt is the only one sent; when it does not, exactly one
  more prompt is sent, the repair prompt, whatever the second reply is.
\<close>

theorem POST_at_most_two_calls:
  assumes "OPENAI_API_KEY env = Some key" and "key \<noteq> []"
    and "req_json req = Inr b"
    and "parse (zod_error_map env) DiagnosticInputSchema b = Inr (Some input)"
  shows "(\<exists>calls. sent (snd (POST env req w)) = sent w @ calls \<and> length calls \<le> 2)
       \<and> (\<forall>out w1. call env w (build_prompt env input) = (Returned out, w1) \<longrightarrow>
            (\<forall>data. check_output env (raw_text out) = Inr data \<longrightarrow>
               (\<exists>plan. data = Some plan
                  \<and> fst (POST env req w)
                      = \<lparr>status = 200,
                         body = JObj [(js ''ok'', JBool True), (js ''plan'', plan)]\<rparr>)
               \<and> sent (snd (POST env req w)) = sent w @ [build_prompt env input])
          \<and> (\<forall>err. check_output env (raw_text out) = Inl err \<longrightarrow>
               sent (snd (POST env req w))
                 = sent w @ [build_prompt env input,
                             repair_prompt env (build_prompt env input) err]))"
proof -
  let ?P = "build_prompt env input"
  have ok: "(\<exists>plan. data = Some plan
                \<and> fst (POST env req w)
                    = \<lparr>status = 200, body = JObj [(js ''ok'', JBool True), (js ''plan'', plan)]\<rparr>)
             \<and> sent (snd (POST env req w)) = sent w @ [?P]"
    if c1: "call env w ?P = (Returned out, w1)"
      and "check_output env (raw_text out) = Inr data" for out w1 data
  proof -
    have s1: "sent w1 = sent w @ [?P]" using c1 by (rule call_sent)
    from POST_first_success [OF assms that] show ?thesis using s1 by auto
  qed
  have rep: "sent (snd (POST env req w)) = sent w @ [?P, repair_prompt env ?P err]"
    if "call env w ?P = (Returned out, w1)"
      and "check_output env (raw_text out) = Inl err" for out w1 err
    using assms that by (rule POST_retry_sent)
  from POST_valid_sent [OF assms, of w] ok rep show ?thesis by blast
qed

theorem POST_at_most_two_calls_witness:
  "OPENAI_API_KEY (scenario_env [plan_text]) = Some (js ''sk-test'') \<and> js ''sk-test'' \<noteq> []
   \<and> req_json scenario_request = Inr scenario_body
   \<and> parse (zod_error_map (scenario_env [plan_text])) DiagnosticInputSchema scenario_body
        = Inr (Some scenario_input)
   \<and> call (scenario_env [plan_text]) start (build_prompt (scenario_env [plan_text]) scenario_input)
        = (Returned (Some plan_text),
           \<lparr>provider = 1, sent = [build_prompt (scenario_env [plan_text]) scenario_input]\<rparr>)
   \<and> check_output (scenario_env [plan_text]) (raw_text (Some plan_text)) = Inr (Some plan_validated)
   \<and> fst (POST (scenario_env [plan_text]) scenario_request start)
        = \<lparr>status = 200, body = JObj [(js ''ok'', JBool True), (js ''plan'', plan_validated)]\<rparr>
   \<and> sent (snd (POST (scenario_env [plan_text]) scenario_request start))
        = [build_prompt (scenario_env [plan_text]) scenario_input]
   \<and> OPENAI_API_KEY (scenario_env [js ''hello'', plan_text]) = Some (js ''sk-test'')
   \<and> parse (zod_error_map (scenario_env [js ''hello'', plan_text])) DiagnosticInputSchema scenario_body
        = Inr (Some scenario_input)
   \<and> call (scenario_env [js ''hello'', plan_text]) start
          (build_prompt (scenario_env [js ''hello'', plan_text]) scenario_input)
        = (Returned (Some (js ''hello'')),
           \<lparr>provider = 1,
            sent = [build_prompt (scenario_env [js ''hello'', plan_text]) scenario_input]\<rparr>)
   \<and> check_output (scenario_env [js ''hello'', plan_text]) (raw_text (Some (js ''hello'')))
        = Inl (ParseErr (js ''Unexpected token h in JSON at position 0''))
   \<and> sent (snd (POST (scenario_env [js ''hello'', plan_text]) scenario_request start))
        = [build_prompt (scenario_env [js ''hello'', plan_text]) scenario_input,
           repair_prompt (scenario_env [js ''hello'', plan_text])
             (build_prompt (scenario_env [js ''hello'', plan_text]) scenario_input)
             (ParseErr (js ''Unexpected token h in JSON at position 0''))]"
proof -
  let ?A = "scenario_env [plan_text]"
  let ?B = "scenario_env [js ''hello'', plan_text]"
  note vA = scenario_key [of "[plan_text]"] scenario_key_nonempty scenario_req
    scenario_valid_input [of "[plan_text]"]
  note vB = scenario_key [of "[js ''hello'', plan_text]"] scenario_key_nonempty scenario_req
    scenario_valid_input [of "[js ''hello'', plan_text]"]
  have cA: "call ?A start (build_prompt ?A scenario_input)
        = (Returned (Some plan_text), \<lparr>provider = 1, sent = [build_prompt ?A scenario_input]\<rparr>)"
    unfolding start_def by (simp add: scenario_call)
  have oA: "check_output ?A (raw_text (Some plan_text)) = Inr (Some plan_validated)"
    by (simp add: raw_text_def check_output_plan)
  have cB: "call ?B start (build_prompt ?B scenario_input)
        = (Returned (Some (js ''hello'')), \<lparr>provider = 1, sent = [build_prompt ?B scenario_input]\<rparr>)"
    unfolding start_def by (simp add: scenario_call)
  have oB: "check_output ?B (raw_text (Some (js ''hello'')))
        = Inl (ParseErr (js ''Unexpected token h in JSON at position 0''))"
    by (simp add: raw_text_def check_output_hello)
  have s0: "sent start = []" by (simp add: start_def)
  from POST_at_most_two_calls [OF vA, of start] cA oA
  have rA: "fst (POST ?A scenario_request start)
        = \<lparr>status = 200, body = JObj [(js ''ok'', JBool True), (js ''plan'', plan_validated)]\<rparr>
      \<and> sent (snd (POST ?A scenario_request start)) = [build_prompt ?A scenario_input]"
    by (auto simp: s0)
  from POST_at_most_two_calls [OF vB, of start] cB oB
  have rB: "sent (snd (POST ?B scenario_request start))
        = [build_prompt ?B scenario_input,
           repair_prompt ?B (build_prompt ?B scenario_input)
             (ParseErr (js ''Unexpected token h in JSON at position 0''))]"
    by (auto simp: s0)
  show ?thesis using vA vB(1,4) cA oA rA cB oB rB by (intro conjI) simp_all
qed

section \<open>Terminal failure\<close>

lemma field_of_failure:
  "field (js ''ok'') (body (failure_response env err rawText)) = Some (JBool False)"
  "field (js ''detail'') (body (failure_response env err rawText))
     = Some (JStr (zodErrToShortString env err))"
  "field (js ''raw'') (body (failure_response env err rawText)) = Some (JStr rawText)"
  "status (failure_response env err rawText) = 500"
  by (simp_all add: failure_response_unfold field_def js_def)

lemma POST_two_failures:
  assumes "OPENAI_API_KEY env = Some key" and "key \<noteq> []"
    and "req_json req = Inr b"
    and "parse (zod_error_map env) DiagnosticInputSchema b = Inr (Some input)"
    and "call env w (build_prompt env input) = (Returned out1, w1)"
    and "check_output env (raw_text out1) = Inl err1"
    and "call env w1 (repair_prompt env (build_prompt env input) err1) = (Returned out2, w2)"
    and "check_output env (raw_text out2) = Inl err2"
  shows "POST env req w = (failure_response env err2 (raw_text out2), w2)"
  using POST_valid [OF assms(1-4), of w] assms(5-8) by simp

text \<open>
  Claim C2 (as amended). When both attempts fail, the response has status 500 and \<open>ok: false\<close>,
  its \<open>raw\<close> is the raw text of the second reply, and its \<open>detail\<close> comes from the second
  failure: for a schema mismatch the first 8 issues, each as path and message, joined with
  \<open>"; "\<close>; for a JSON parse error the text \<open>String(err)\<close> of the \<open>SyntaxError\<close>.
\<close>

theorem POST_both_attempts_fail:
  assumes "OPENAI_API_KEY env = Some key" and "key \<noteq> []"
    and "req_json req = Inr b"
    and "parse (zod_error_map env) DiagnosticInputSchema b = Inr (Some input)"
    and "call env w (build_prompt env input) = (Returned out1, w1)"
    and "check_output env (raw_text out1) = Inl err1"
    and "call env w1 (repair_prompt env (build_prompt env input) err1) = (Returned out2, w2)"
    and "check_output env (raw_text out2) = Inl err2"
  shows "status (fst (POST env req w)) = 500
       \<and> field (js ''ok'') (body (fst (POST env req w))) = Some (JBool False)
       \<and> field (js ''raw'') (body (fst (POST env req w))) = Some (JStr (raw_text out2))
       \<and> (\<forall>is. err2 = SchemaErr is \<longrightarrow>
             field (js ''detail'') (body (fst (POST env req w)))
               = Some (JStr (join (js ''; '') (map render_issue (take 8 is)))))
       \<and> (\<forall>m. err2 = ParseErr m \<longrightarrow>
             field (js ''detail'') (body (fst (POST env req w)))
               = Some (JStr (if m = [] then js ''SyntaxError'' else js ''SyntaxError: '' @ m)))"
proof -
  have post: "fst (POST env req w) = failure_response env err2 (raw_text out2)"
    using POST_two_failures [OF assms] by simp
  have schema: "zodErrToShortString env err2 = join (js ''; '') (map render_issue (take 8 is))"
    if "err2 = SchemaErr is" for "is"
  proof -
    from check_output_Inl [OF assms(8)] that have "is \<noteq> []" by auto
    then show ?thesis using that by (simp add: zodErrToShortString_def)
  qed
  have perr: "zodErrToShortString env err2
                  = (if m = [] then js ''SyntaxError'' else js ''SyntaxError: '' @ m)"
    if "err2 = ParseErr m" for m
    using that by (simp add: zodErrToShortString_def)
  show ?thesis
    unfolding post field_of_failure using schema perr by simp
qed


lemma hello_detail:
  "field (js ''detail'') (body (fst (POST (scenario_env [js ''hello'', js ''hello'']) scenario_request start)))
     = Some (JStr (js ''SyntaxError: Unexpected token h in JSON at position 0''))
   \<and> field (js ''raw'') (body (fst (POST (scenario_env [js ''hello'', js ''hello'']) scenario_request start)))
     = Some (JStr (js ''hello''))"
proof -
  let ?E = "scenario_env [js ''hello'', js ''hello'']"
  let ?P = "build_prompt ?E scenario_input"
  let ?msg = "js ''Unexpected token h in JSON at position 0''"
  have c1: "call ?E start ?P = (Returned (Some (js ''hello'')), \<lparr>provider = 1, sent = [?P]\<rparr>)"
    unfolding start_def by (simp add: scenario_call)
  have o1: "check_output ?E (raw_text (Some (js ''hello''))) = Inl (ParseErr ?msg)"
    by (simp add: raw_text_def check_output_hello)
  have c2: "call ?E \<lparr>provider = 1, sent = [?P]\<rparr> (repair_prompt ?E ?P (ParseErr ?msg))
      = (Returned (Some (js ''hello'')),
         \<lparr>provider = 2, sent = [?P, repair_prompt ?E ?P (ParseErr ?msg)]\<rparr>)"
    using scenario_call [of 1 "[js ''hello'', js ''hello'']" "[?P]"]
    by (simp add: numeral_2_eq_2)
  have "POST ?E scenario_request start
      = (failure_response ?E (ParseErr ?msg) (raw_text (Some (js ''hello''))),
         \<lparr>provider = 2, sent = [?P, repair_prompt ?E ?P (ParseErr ?msg)]\<rparr>)"
    by (rule POST_two_failures [OF scenario_key scenario_key_nonempty scenario_req
          scenario_valid_input c1 o1 c2 o1])
  moreover have "?msg \<noteq> []" by (simp add: js_def)
  moreover have "js ''SyntaxError: '' @ ?msg = js ''SyntaxError: Unexpected token h in JSON at position 0''"
    by (simp add: js_def)
  ultimately show ?thesis
    by (simp add: field_of_failure zodErrToShortString_def raw_text_def)
qed

text \<open>
  Claim C2 as stated fails when the second attempt ends in a JSON parse error: that error has
  no issues, and \<open>detail\<close> is \<open>String(err)\<close>, not a list of issues.
\<close>

theorem POST_both_attempts_fail_counterexample:
  "check_output (scenario_env [js ''hello'', js ''hello'']) (js ''hello'')
     = Inl (ParseErr (js ''Unexpected token h in JSON at position 0''))
   \<and> err_issues (ParseErr (js ''Unexpected token h in JSON at position 0'')) = None
   \<and> field (js ''raw'') (body (fst (POST (scenario_env [js ''hello'', js ''hello'']) scenario_request start)))
       = Some (JStr (js ''hello''))
   \<and> field (js ''detail'') (body (fst (POST (scenario_env [js ''hello'', js ''hello'']) scenario_request start)))
       = Some (JStr (js ''SyntaxError: Unexpected token h in JSON at position 0''))
   \<and> js ''SyntaxError: Unexpected token h in JSON at position 0''
       \<noteq> join (js ''; '') (map render_issue (take 8 []))"
proof -
  have "js ''SyntaxError: Unexpected token h in JSON at position 0''
          \<noteq> join (js ''; '') (map render_issue (take 8 []))"
    by (simp add: js_def)
  then show ?thesis using hello_detail check_output_hello by simp
qed

theorem POST_both_attempts_fail_witness:
  "OPENAI_API_KEY (scenario_env [js ''{}'', js ''{}'']) = Some (js ''sk-test'') \<and> js ''sk-test'' \<noteq> []
   \<and> req_json scenario_request = Inr scenario_body
   \<and> parse (zod_error_map (scenario_env [js ''{}'', js ''{}''])) DiagnosticInputSchema scenario_body
        = Inr (Some scenario_input)
   \<and> call (scenario_env [js ''{}'', js ''{}'']) start
          (build_prompt (scenario_env [js ''{}'', js ''{}'']) scenario_input)
        = (Returned (Some (js ''{}'')),
           \<lparr>provider = 1, sent = [build_prompt (scenario_env [js ''{}'', js ''{}'']) scenario_input]\<rparr>)
   \<and> check_output (scenario_env [js ''{}'', js ''{}'']) (raw_text (Some (js ''{}'')))
        = Inl (SchemaErr empty_object_issues)
   \<and> call (scenario_env [js ''{}'', js ''{}''])
          \<lparr>provider = 1, sent = [build_prompt (scenario_env [js ''{}'', js ''{}'']) scenario_input]\<rparr>
          (repair_prompt (scenario_env [js ''{}'', js ''{}''])
             (build_prompt (scenario_env [js ''{}'', js ''{}'']) scenario_input)
             (SchemaErr empty_object_issues))
        = (Returned (Some (js ''{}'')),
           \<lparr>provider = 2,
            sent = [build_prompt (scenario_env [js ''{}'', js ''{}'']) scenario_input,
                    repair_prompt (scenario_env [js ''{}'', js ''{}''])
                      (build_prompt (scenario_env [js ''{}'', js ''{}'']) scenario_input)
                      (SchemaErr empty_object_issues)]\<rparr>)
   \<and> status (fst (POST (scenario_env [js ''{}'', js ''{}'']) scenario_request start)) = 500
   \<and> field (js ''ok'') (body (fst (POST (scenario_env [js ''{}'', js ''{}'']) scenario_request start)))
        = Some (JBool False)
   \<and> field (js ''raw'') (body (fst (POST (scenario_env [js ''{}'', js ''{}'']) scenario_request start)))
        = Some (JStr (js ''{}''))
   \<and> field (js ''detail'') (body (fst (POST (scenario_env [js ''{}'', js ''{}'']) scenario_request start)))
        = Some (JStr (js ''version: Required; language: Required; vehicle: Required; concern: Required; overview: Required; disclaimers: Required; safetyNotes: Required; specs: Required''))
   \<and> call (scenario_env [js ''hello'', js ''hello'']) start
          (build_prompt (scenario_env [js ''hello'', js ''hello'']) scenario_input)
        = (Returned (Some (js ''hello'')),
           \<lparr>provider = 1, sent = [build_prompt (scenario_env [js ''hello'', js ''hello'']) scenario_input]\<rparr>)
   \<and> check_output (scenario_env [js ''hello'', js ''hello'']) (raw_text (Some (js ''hello'')))
        = Inl (ParseErr (js ''Unexpected token h in JSON at position 0''))
   \<and> field (js ''detail'') (body (fst (POST (scenario_env [js ''hello'', js ''hello'']) scenario_request start)))
        = Some (JStr (js ''SyntaxError: '' @ js ''Unexpected token h in JSON at position 0''))"
proof -
  let ?E = "scenario_env [js ''{}'', js ''{}'']"
  let ?P = "build_prompt ?E scenario_input"
  let ?F = "scenario_env [js ''hello'', js ''hello'']"
  let ?Q = "build_prompt ?F scenario_input"
  let ?msg = "js ''Unexpected token h in JSON at position 0''"
  note v = scenario_key [of "[js ''{}'', js ''{}'']"] scenario_key_nonempty scenario_req
    scenario_valid_input [of "[js ''{}'', js ''{}'']"]
  note vF = scenario_key [of "[js ''hello'', js ''hello'']"] scenario_key_nonempty scenario_req
    scenario_valid_input [of "[js ''hello'', js ''hello'']"]
  have c1: "call ?E start ?P = (Returned (Some (js ''{}'')), \<lparr>provider = 1, sent = [?P]\<rparr>)"
    unfolding start_def by (simp add: scenario_call)
  have o1: "check_output ?E (raw_text (Some (js ''{}''))) = Inl (SchemaErr empty_object_issues)"
    by (simp add: raw_text_def check_output_empty)
  have c2: "call ?E \<lparr>provider = 1, sent = [?P]\<rparr> (repair_prompt ?E ?P (SchemaErr empty_object_issues))
      = (Returned (Some (js ''{}'')),
         \<lparr>provider = 2, sent = [?P, repair_prompt ?E ?P (SchemaErr empty_object_issues)]\<rparr>)"
    using scenario_call [of 1 "[js ''{}'', js ''{}'']" "[?P]"]
    by (simp add: numeral_2_eq_2)
  have d1: "call ?F start ?Q = (Returned (Some (js ''hello'')), \<lparr>provider = 1, sent = [?Q]\<rparr>)"
    unfolding start_def by (simp add: scenario_call)
  have p1: "check_output ?F (raw_text (Some (js ''hello''))) = Inl (ParseErr ?msg)"
    by (simp add: raw_text_def check_output_hello)
  have d2: "call ?F \<lparr>provider = 1, sent = [?Q]\<rparr> (repair_prompt ?F ?Q (ParseErr ?msg))
      = (Returned (Some (js ''hello'')),
         \<lparr>provider = 2, sent = [?Q, repair_prompt ?F ?Q (ParseErr ?msg)]\<rparr>)"
    using scenario_call [of 1 "[js ''hello'', js ''hello'']" "[?Q]"]
    by (simp add: numeral_2_eq_2)
  have ne: "?msg \<noteq> []" by (simp add: js_def)
  from POST_both_attempts_fail [OF v c1 o1 c2 o1]
  have rE: "status (fst (POST ?E scenario_request start)) = 500
      \<and> field (js ''ok'') (body (fst (POST ?E scenario_request start))) = Some (JBool False)
      \<and> field (js ''raw'') (body (fst (POST ?E scenario_request start))) = Some (JStr (js ''{}''))
      \<and> field (js ''detail'') (body (fst (POST ?E scenario_request start)))
           = Some (JStr (join (js ''; '') (map render_issue (take 8 empty_object_issues))))"
    by (simp add: raw_text_def)
  from POST_both_attempts_fail [OF vF d1 p1 d2 p1] ne
  have rF: "field (js ''detail'') (body (fst (POST ?F scenario_request start)))
           = Some (JStr (js ''SyntaxError: '' @ ?msg))"
    by simp
  show ?thesis
    using v c1 o1 c2 rE d1 p1 rF unfolding empty_object_detail by (intro conjI) simp_all
qed

section \<open>The repair prompt\<close>

lemma check_output_schema_failure:
  assumes "json_parse env (json_block rawText) = Inr parsed"
    and "safeParse (zod_error_map env) DiagnosticPlanSchema parsed = Inl issues"
  shows "check_output env rawText = Inl (SchemaErr issues)" and "issues \<noteq> []"
  using assms by (auto simp: check_output_def safeParse_def dest: zparse_Inl_nonempty)

lemma repair_prompt_schema:
  "issues \<noteq> [] \<Longrightarrow>
   repair_prompt env prompt (SchemaErr issues) =
     prompt
     @ js [CHR 0x0A, CHR 0x0A] @ js ''Your previous JSON failed validation with these issues:''
     @ js [CHR 0x0A] @ join (js ''; '') (map render_issue (take 8 issues))
     @ js [CHR 0x0A, CHR 0x0A]
     @ js ''Return ONLY corrected JSON that satisfies the structure exactly. Do not omit required keys.''"
  by (simp add: repair_prompt_def zodErrToShortString_def)

lemma sublist_in_repair_prompt:
  assumes "issues \<noteq> []" and "i \<in> set (take 8 issues)"
  shows "sublist (render_issue i) (repair_prompt env prompt (SchemaErr issues))"
proof -
  have "render_issue i \<in> set (map render_issue (take 8 issues))" using assms(2) by simp
  then have "sublist (render_issue i) (join (js ''; '') (map render_issue (take 8 issues)))"
    by (rule sublist_join)
  moreover have "sublist (join (js ''; '') (map render_issue (take 8 issues)))
      (repair_prompt env prompt (SchemaErr issues))"
    unfolding repair_prompt_schema [OF assms(1)]
    by (metis append.assoc sublist_appendI)
  ultimately show ?thesis by (rule sublist_order.order.trans)
qed

text \<open>
  Claim C4 (as amended). When the first reply's parsed JSON fails the output schema, the
  second prompt is the original prompt followed by the announcement line, the first 8 issues
  (path and message, joined with \<open>"; "\<close>) and the instruction to return corrected JSON; each of
  those first 8 issue strings occurs in it literally.
\<close>

theorem repair_prompt_lists_issues:
  assumes "OPENAI_API_KEY env = Some key" and "key \<noteq> []"
    and "req_json req = Inr b"
    and "parse (zod_error_map env) DiagnosticInputSchema b = Inr (Some input)"
    and "call env w (build_prompt env input) = (Returned out, w1)"
    and "json_parse env (json_block (raw_text out)) = Inr parsed"
    and "safeParse (zod_error_map env) DiagnosticPlanSchema parsed = Inl issues"
  shows "sent (snd (POST env req w)) =
           sent w @
           [build_prompt env input,
            build_prompt env input
            @ js [CHR 0x0A, CHR 0x0A] @ js ''Your previous JSON failed validation with these issues:''
            @ js [CHR 0x0A] @ join (js ''; '') (map render_issue (take 8 issues))
            @ js [CHR 0x0A, CHR 0x0A]
            @ js ''Return ONLY corrected JSON that satisfies the structure exactly. Do not omit required keys.'']
       \<and> (\<forall>i\<in>set (take 8 issues).
             sublist (render_issue i) (sent (snd (POST env req w)) ! Suc (length (sent w))))"
proof -
  let ?P = "build_prompt env input"
  note f = check_output_schema_failure [OF assms(6,7)]
  have s: "sent (snd (POST env req w)) = sent w @ [?P, repair_prompt env ?P (SchemaErr issues)]"
    using assms(1-5) f(1) by (rule POST_retry_sent)
  then have n: "sent (snd (POST env req w)) ! Suc (length (sent w))
                  = repair_prompt env ?P (SchemaErr issues)"
    by (simp add: nth_append)
  show ?thesis
    unfolding n using s sublist_in_repair_prompt [OF f(2)]
    by (simp add: repair_prompt_schema [OF f(2)])
qed

lemma empty_reply_sent:
  "sent (snd (POST (scenario_env [js ''{}'', js ''hello'']) scenario_request start))
     = [build_prompt (scenario_env [js ''{}'', js ''hello'']) scenario_input,
        repair_prompt (scenario_env [js ''{}'', js ''hello''])
          (build_prompt (scenario_env [js ''{}'', js ''hello'']) scenario_input)
          (SchemaErr empty_object_issues)]"
proof -
  let ?E = "scenario_env [js ''{}'', js ''hello'']"
  let ?P = "build_prompt ?E scenario_input"
  have c1: "call ?E start ?P = (Returned (Some (js ''{}'')), \<lparr>provider = 1, sent = [?P]\<rparr>)"
    unfolding start_def by (simp add: scenario_call)
  have o1: "check_output ?E (raw_text (Some (js ''{}''))) = Inl (SchemaErr empty_object_issues)"
    by (simp add: raw_text_def check_output_empty)
  have "sent (snd (POST ?E scenario_request start))
          = sent start @ [?P, repair_prompt ?E ?P (SchemaErr empty_object_issues)]"
    by (rule POST_retry_sent [OF scenario_key scenario_key_nonempty scenario_req
          scenario_valid_input c1 o1])
  then show ?thesis by (simp add: start_def)
qed

lemma empty_object_issues_nonempty: "empty_object_issues \<noteq> []"
  by (simp add: empty_object_issues_def)

lemma ninth_issue_absent:
  "\<not> sublist (js ''steps: Required'')
      (repair_prompt (scenario_env [js ''{}'', js ''hello''])
         (build_prompt (scenario_env [js ''{}'', js ''hello'']) scenario_input)
         (SchemaErr empty_object_issues))"
  unfolding repair_prompt_schema [OF empty_object_issues_nonempty] scenario_prompt
    empty_object_detail
  by (simp add: template_lines_def scenario_case_text_def js_def sublist_code prefix_code)

theorem repair_prompt_lists_issues_witness:
  "OPENAI_API_KEY (scenario_env [js ''{}'', js ''hello'']) = Some (js ''sk-test'')
   \<and> js ''sk-test'' \<noteq> []
   \<and> req_json scenario_request = Inr scenario_body
   \<and> parse (zod_error_map (scenario_env [js ''{}'', js ''hello''])) DiagnosticInputSchema scenario_body
        = Inr (Some scenario_input)
   \<and> call (scenario_env [js ''{}'', js ''hello'']) start
          (build_prompt (scenario_env [js ''{}'', js ''hello'']) scenario_input)
        = (Returned (Some (js ''{}'')),
           \<lparr>provider = 1, sent = [build_prompt (scenario_env [js ''{}'', js ''hello'']) scenario_input]\<rparr>)
   \<and> json_parse (scenario_env [js ''{}'', js ''hello'']) (json_block (raw_text (Some (js ''{}''))))
        = Inr (JObj [])
   \<and> safeParse (zod_error_map (scenario_env [js ''{}'', js ''hello''])) DiagnosticPlanSchema (JObj [])
        = Inl empty_object_issues
   \<and> sent (snd (POST (scenario_env [js ''{}'', js ''hello'']) scenario_request start)) =
         sent start @
         [build_prompt (scenario_env [js ''{}'', js ''hello'']) scenario_input,
          build_prompt (scenario_env [js ''{}'', js ''hello'']) scenario_input
          @ js [CHR 0x0A, CHR 0x0A] @ js ''Your previous JSON failed validation with these issues:''
          @ js [CHR 0x0A]
          @ js ''version: Required; language: Required; vehicle: Required; concern: Required; overview: Required; disclaimers: Required; safetyNotes: Required; specs: Required''
          @ js [CHR 0x0A, CHR 0x0A]
          @ js ''Return ONLY corrected JSON that satisfies the structure exactly. Do not omit required keys.'']
   \<and> empty_object_issues ! 0 \<in> set (take 8 empty_object_issues)
   \<and> render_issue (empty_object_issues ! 0) = js ''version: Required''
   \<and> sublist (js ''version: Required'')
         (sent (snd (POST (scenario_env [js ''{}'', js ''hello'']) scenario_request start))
            ! Suc (length (sent start)))"
proof -
  let ?E = "scenario_env [js ''{}'', js ''hello'']"
  let ?P = "build_prompt ?E scenario_input"
  note v = scenario_key [of "[js ''{}'', js ''hello'']"] scenario_key_nonempty scenario_req
    scenario_valid_input [of "[js ''{}'', js ''hello'']"]
  have c1: "call ?E start ?P = (Returned (Some (js ''{}'')), \<lparr>provider = 1, sent = [?P]\<rparr>)"
    unfolding start_def by (simp add: scenario_call)
  have p: "json_parse ?E (json_block (raw_text (Some (js ''{}'')))) = Inr (JObj [])"
    by (simp add: raw_text_def json_block_empty_object scenario_env_def scenario_parse_empty)
  have s: "safeParse (zod_error_map ?E) DiagnosticPlanSchema (JObj []) = Inl empty_object_issues"
    by (simp add: scenario_env_def empty_object_safeParse)
  have m: "empty_object_issues ! 0 \<in> set (take 8 empty_object_issues)"
    by (simp add: empty_object_issues_def)
  have r: "render_issue (empty_object_issues ! 0) = js ''version: Required''"
    by (simp add: empty_object_issues_def render_issue_def issue_def js_def)
  note t = repair_prompt_lists_issues [OF v c1 p s]
  from t have t1: "sent (snd (POST ?E scenario_request start)) =
         sent start @
         [?P,
          ?P @ js [CHR 0x0A, CHR 0x0A] @ js ''Your previous JSON failed validation with these issues:''
          @ js [CHR 0x0A]
          @ js ''version: Required; language: Required; vehicle: Required; concern: Required; overview: Required; disclaimers: Required; safetyNotes: Required; specs: Required''
          @ js [CHR 0x0A, CHR 0x0A]
          @ js ''Return ONLY corrected JSON that satisfies the structure exactly. Do not omit required keys.'']"
    unfolding empty_object_detail by (rule conjunct1)
  from t m have "sublist (render_issue (empty_object_issues ! 0))
         (sent (snd (POST ?E scenario_request start)) ! Suc (length (sent start)))"
    by blast
  then have t2: "sublist (js ''version: Required'')
         (sent (snd (POST ?E scenario_request start)) ! Suc (length (sent start)))"
    by (simp only: r)
  show ?thesis using v c1 p s t1 m r t2 by (intro conjI)
qed

text \<open>
  Claim C4 as stated fails for a failure with more than 8 issues: the empty object yields 11,
  and the ninth, \<open>steps: Required\<close>, does not occur in the second prompt.
\<close>

theorem repair_prompt_lists_issues_counterexample:
  "check_output (scenario_env [js ''{}'', js ''hello'']) (raw_text (Some (js ''{}'')))
     = Inl (SchemaErr empty_object_issues)
   \<and> render_issue (empty_object_issues ! 8) = js ''steps: Required''
   \<and> sent (snd (POST (scenario_env [js ''{}'', js ''hello'']) scenario_request start)) ! 1
       = repair_prompt (scenario_env [js ''{}'', js ''hello''])
           (build_prompt (scenario_env [js ''{}'', js ''hello'']) scenario_input)
           (SchemaErr empty_object_issues)
   \<and> \<not> sublist (render_issue (empty_object_issues ! 8))
         (sent (snd (POST (scenario_env [js ''{}'', js ''hello'']) scenario_request start)) ! 1)"
proof -
  have o1: "check_output (scenario_env [js ''{}'', js ''hello'']) (raw_text (Some (js ''{}'')))
     = Inl (SchemaErr empty_object_issues)"
    by (simp add: raw_text_def check_output_empty)
  have n: "sent (snd (POST (scenario_env [js ''{}'', js ''hello'']) scenario_request start)) ! 1
       = repair_prompt (scenario_env [js ''{}'', js ''hello''])
           (build_prompt (scenario_env [js ''{}'', js ''hello'']) scenario_input)
           (SchemaErr empty_object_issues)"
    by (simp add: empty_reply_sent)
  show ?thesis
    unfolding n ninth_issue using o1 ninth_issue_absent by (intro conjI) simp_all
qed

section \<open>The plan of a success response\<close>

lemma ok_false_responses:
  "field (js ''ok'') (body (missing_key_response :: 'a response)) = Some (JBool False)"
  "field (js ''ok'') (body (catch_response err :: 'a response)) = Some (JBool False)"
  by (simp_all add: missing_key_response_unfold catch_response_unfold field_def)

lemma POST_ok:
  assumes "field (js ''ok'') (body (fst (POST env req w))) = Some (JBool True)"
  shows "\<exists>w0 prompt out plan.
           call env w0 prompt = (Returned out, snd (POST env req w))
           \<and> check_output env (raw_text out) = Inr (Some plan)
           \<and> fst (POST env req w)
               = \<lparr>status = 200, body = JObj [(js ''ok'', JBool True), (js ''plan'', plan)]\<rparr>"
proof (cases "OPENAI_API_KEY env = None \<or> OPENAI_API_KEY env = Some []")
  case True
  then have "fst (POST env req w) = missing_key_response" by (auto simp: POST_def)
  then show ?thesis using assms by (simp add: ok_false_responses)
next
  case False
  then obtain key where key: "OPENAI_API_KEY env = Some key" "key \<noteq> []" by auto
  show ?thesis
  proof (cases "req_json req")
    case (Inl err)
    then have "fst (POST env req w) = catch_response err" using key by (simp add: POST_def)
    then show ?thesis using assms by (simp add: ok_false_responses)
  next
    case (Inr b)
    show ?thesis
    proof (cases "parse (zod_error_map env) DiagnosticInputSchema b")
      case (Inl "is")
      then have "fst (POST env req w) = catch_response (Thrown_Error (zod_error_message env is))"
        using key Inr by (simp add: POST_def)
      then show ?thesis using assms by (simp add: ok_false_responses)
    next
      case data: (Inr data)
      show ?thesis
      proof (cases data)
        case None
        then have "fst (POST env req w) = catch_response (Thrown_Error (js ''TypeError''))"
          using key Inr data by (simp add: POST_def)
        then show ?thesis using assms by (simp add: ok_false_responses)
      next
        case (Some input)
        let ?P = "build_prompt env input"
        note post = POST_valid [OF key Inr data [unfolded Some], of w]
        obtain r1 w1 where c1: "call env w ?P = (r1, w1)" by (cases "call env w ?P")
        show ?thesis
        proof (cases r1)
          case (Rejected e)
          then have "fst (POST env req w) = catch_response e" using post c1 by simp
          then show ?thesis using assms by (simp add: ok_false_responses)
        next
          case ret1: (Returned out1)
          show ?thesis
          proof (cases "check_output env (raw_text out1)")
            case ok1: (Inr d1)
            from check_output_Inr [OF ok1] obtain plan where d1: "d1 = Some plan" by blast
            have "POST env req w = (plan_response (Some plan), w1)"
              using post c1 ret1 ok1 d1 by simp
            then show ?thesis using c1 ret1 ok1 d1
              by (auto simp: plan_response_Some)
          next
            case bad1: (Inl err1)
            obtain r2 w2 where c2: "call env w1 (repair_prompt env ?P err1) = (r2, w2)"
              by (cases "call env w1 (repair_prompt env ?P err1)")
            show ?thesis
            proof (cases r2)
              case (Rejected e)
              then have "fst (POST env req w) = catch_response e"
                using post c1 ret1 bad1 c2 by simp
              then show ?thesis using assms by (simp add: ok_false_responses)
            next
              case ret2: (Returned out2)
              show ?thesis
              proof (cases "check_output env (raw_text out2)")
                case ok2: (Inr d2)
                from check_output_Inr [OF ok2] obtain plan where d2: "d2 = Some plan" by blast
                have "POST env req w = (plan_response (Some plan), w2)"
                  using post c1 ret1 bad1 c2 ret2 ok2 d2 by simp
                then show ?thesis using c2 ret2 ok2 d2
                  by (auto simp: plan_response_Some)
              next
                case bad2: (Inl err2)
                have "fst (POST env req w) = failure_response env err2 (raw_text out2)"
                  using post c1 ret1 bad1 c2 ret2 bad2 by simp
                then show ?thesis using assms by (simp add: field_of_failure)
              qed
            qed
          qed
        qed
      qed
    qed
  qed
qed

lemma plan_field: "field (js ''plan'') (JObj [(js ''ok'', JBool True), (js ''plan'', plan)]) = Some plan"
  by (simp add: field_def js_def)

text \<open>
  Claim C9. The plan of every success response is fully bilingual, whatever the request and
  its locale were: overview and disclaimers, the name and note of every specification item,
  the title and purpose of every step and the label, test and notes of every connector hint
  carry an \<open>en\<close> and an \<open>es\<close> string; the safety notes and every step's procedure, pass
  criteria and fail criteria carry an \<open>en\<close> and an \<open>es\<close> array of strings.
\<close>

theorem POST_success_plan_bilingual:
  assumes "field (js ''ok'') (body (fst (POST env req w))) = Some (JBool True)"
  shows "\<exists>plan. field (js ''plan'') (body (fst (POST env req w))) = Some plan
           \<and> plan_bilingual plan"
proof -
  from POST_ok [OF assms] obtain out plan
    where c: "check_output env (raw_text out) = Inr (Some plan)"
      and r: "fst (POST env req w)
               = \<lparr>status = 200, body = JObj [(js ''ok'', JBool True), (js ''plan'', plan)]\<rparr>"
    by blast
  from check_output_Inr [OF c] obtain parsed
    where "safeParse (zod_error_map env) DiagnosticPlanSchema parsed = Inr (Some plan)" by auto
  then have "has plan_bilingual (Some plan)"
    unfolding safeParse_def by (rule DiagnosticPlanSchema_out)
  then show ?thesis using r by (simp add: has_def plan_field)
qed

text \<open>
  Claim C10. The plan of every success response is the output of \<open>safeParse\<close> on the JSON parsed
  from a reply of the provider, and it conforms to the output schema: each of its objects
  carries keys the schema declares and no other, also when the parsed JSON had more.
\<close>

theorem POST_success_plan_stripped:
  assumes "field (js ''ok'') (body (fst (POST env req w))) = Some (JBool True)"
  shows "\<exists>w0 prompt out parsed plan.
           call env w0 prompt = (Returned out, snd (POST env req w))
           \<and> json_parse env (json_block (raw_text out)) = Inr parsed
           \<and> safeParse (zod_error_map env) DiagnosticPlanSchema parsed = Inr (Some plan)
           \<and> fst (POST env req w)
               = \<lparr>status = 200, body = JObj [(js ''ok'', JBool True), (js ''plan'', plan)]\<rparr>
           \<and> conforms DiagnosticPlanSchema plan"
proof -
  from POST_ok [OF assms] obtain w0 prompt out plan
    where k: "call env w0 prompt = (Returned out, snd (POST env req w))"
      and c: "check_output env (raw_text out) = Inr (Some plan)"
      and r: "fst (POST env req w)
               = \<lparr>status = 200, body = JObj [(js ''ok'', JBool True), (js ''plan'', plan)]\<rparr>"
    by blast
  from check_output_Inr [OF c] obtain parsed
    where p: "json_parse env (json_block (raw_text out)) = Inr parsed"
      and s: "safeParse (zod_error_map env) DiagnosticPlanSchema parsed = Inr (Some plan)" by auto
  from s have "conforms DiagnosticPlanSchema plan"
    unfolding safeParse_def by (rule zparse_conforms)
  then show ?thesis using k p s r by blast
qed

text \<open>
  Claim C8 (as amended). For a valid request whose first reply parses and validates, the
  response is \<open>{ok: true, plan}\<close> after that one call; \<open>plan.firstStepId\<close> is the string the reply
  carried and \<open>plan.steps\<close> has as many entries as the reply's \<open>steps\<close>.
\<close>

theorem POST_first_response_valid:
  assumes "OPENAI_API_KEY env = Some key" and "key \<noteq> []"
    and "req_json req = Inr b"
    and "parse (zod_error_map env) DiagnosticInputSchema b = Inr (Some input)"
    and "call env w (build_prompt env input) = (Returned out, w1)"
    and "json_parse env (json_block (raw_text out)) = Inr parsed"
    and "safeParse (zod_error_map env) DiagnosticPlanSchema parsed = Inr data"
  shows "\<exists>plan s n.
           POST env req w
             = (\<lparr>status = 200, body = JObj [(js ''ok'', JBool True), (js ''plan'', plan)]\<rparr>, w1)
           \<and> field (js ''firstStepId'') parsed = Some (JStr s)
           \<and> field (js ''firstStepId'') plan = Some (JStr s)
           \<and> array_length (field (js ''steps'') parsed) = Some n
           \<and> array_length (field (js ''steps'') plan) = Some n"
proof -
  have c: "check_output env (raw_text out) = Inr data"
    using assms(6,7) by (simp add: check_output_def)
  from POST_first_success [OF assms(1-5) c] obtain plan where d: "data = Some plan"
    and p: "POST env req w
             = (\<lparr>status = 200, body = JObj [(js ''ok'', JBool True), (js ''plan'', plan)]\<rparr>, w1)"
    by blast
  note z = assms(7) [unfolded safeParse_def d]
  from DiagnosticPlanSchema_firstStepId [OF z] obtain s
    where f: "field (js ''firstStepId'') parsed = Some (JStr s)"
      "field (js ''firstStepId'') plan = Some (JStr s)" by auto
  from DiagnosticPlanSchema_steps [OF z] obtain xs ys
    where "field (js ''steps'') parsed = Some (JArr xs)"
      and "field (js ''steps'') plan = Some (JArr ys)" and "length ys = length xs" by auto
  then have "array_length (field (js ''steps'') parsed) = Some (length xs)"
    and "array_length (field (js ''steps'') plan) = Some (length xs)"
    by (simp_all add: array_length_def)
  then show ?thesis using p f by blast
qed

lemma scenario_plan_parse:
  "json_parse (scenario_env rs) (json_block (raw_text (Some plan_text))) = Inr plan_parsed"
  by (simp add: raw_text_def json_block_plan_text scenario_env_def scenario_parse_plan)

lemma scenario_plan_safeParse:
  "safeParse (zod_error_map (scenario_env rs)) DiagnosticPlanSchema plan_parsed
     = Inr (Some plan_validated)"
  by (simp add: scenario_env_def plan_safeParse)

lemma scenario_first_call:
  "call (scenario_env [plan_text]) start (build_prompt (scenario_env [plan_text]) scenario_input)
     = (Returned (Some plan_text),
        \<lparr>provider = 1, sent = [build_prompt (scenario_env [plan_text]) scenario_input]\<rparr>)"
  unfolding start_def by (simp add: scenario_call)

lemma scenario_success:
  "POST (scenario_env [plan_text]) scenario_request start
     = (\<lparr>status = 200, body = JObj [(js ''ok'', JBool True), (js ''plan'', plan_validated)]\<rparr>,
        \<lparr>provider = 1, sent = [build_prompt (scenario_env [plan_text]) scenario_input]\<rparr>)"
proof -
  have "check_output (scenario_env [plan_text]) (raw_text (Some plan_text)) = Inr (Some plan_validated)"
    by (simp add: raw_text_def check_output_plan)
  from POST_first_success [OF scenario_key scenario_key_nonempty scenario_req
      scenario_valid_input scenario_first_call this]
  show ?thesis by simp
qed

lemma scenario_ok:
  "field (js ''ok'') (body (fst (POST (scenario_env [plan_text]) scenario_request start)))
     = Some (JBool True)"
  by (simp add: scenario_success field_def)

lemma plan_validated_facts:
  "field (js ''firstStepId'') plan_validated = Some (JStr (js ''none''))"
  "array_length (field (js ''steps'') plan_validated) = Some 1"
  "field (js ''extra'') plan_validated = None"
  by (simp_all add: plan_validated_def field_def array_length_def js_def)

lemma plan_parsed_facts:
  "field (js ''firstStepId'') plan_parsed = Some (JStr (js ''none''))"
  "array_length (field (js ''steps'') plan_parsed) = Some 1"
  "field (js ''extra'') plan_parsed = Some (JNum 1)"
  by (simp_all add: plan_parsed_def field_def array_length_def js_def)

theorem POST_success_plan_bilingual_witness:
  "field (js ''ok'') (body (fst (POST (scenario_env [plan_text]) scenario_request start)))
     = Some (JBool True)
   \<and> field (js ''plan'') (body (fst (POST (scenario_env [plan_text]) scenario_request start)))
       = Some plan_validated
   \<and> plan_bilingual plan_validated"
proof -
  from POST_success_plan_bilingual [OF scenario_ok] obtain plan
    where "field (js ''plan'') (body (fst (POST (scenario_env [plan_text]) scenario_request start)))
             = Some plan" and b: "plan_bilingual plan"
    by blast
  moreover have f: "field (js ''plan'') (body (fst (POST (scenario_env [plan_text]) scenario_request start)))
             = Some plan_validated"
    by (simp add: scenario_success plan_field)
  ultimately have "plan = plan_validated" by simp
  then show ?thesis using scenario_ok f b by simp
qed

theorem POST_success_plan_stripped_witness:
  "field (js ''ok'') (body (fst (POST (scenario_env [plan_text]) scenario_request start)))
     = Some (JBool True)
   \<and> json_parse (scenario_env [plan_text]) (json_block (raw_text (Some plan_text))) = Inr plan_parsed
   \<and> field (js ''extra'') plan_parsed = Some (JNum 1)
   \<and> fst (POST (scenario_env [plan_text]) scenario_request start)
       = \<lparr>status = 200, body = JObj [(js ''ok'', JBool True), (js ''plan'', plan_validated)]\<rparr>
   \<and> field (js ''extra'') plan_validated = None
   \<and> conforms DiagnosticPlanSchema plan_validated"
proof -
  from POST_success_plan_stripped [OF scenario_ok] obtain plan
    where "fst (POST (scenario_env [plan_text]) scenario_request start)
             = \<lparr>status = 200, body = JObj [(js ''ok'', JBool True), (js ''plan'', plan)]\<rparr>"
      and c: "conforms DiagnosticPlanSchema plan"
    by blast
  then have "plan = plan_validated" by (simp add: scenario_success)
  then show ?thesis
    using c scenario_ok scenario_plan_parse plan_parsed_facts(3) plan_validated_facts(3)
    by (simp add: scenario_success)
qed

theorem POST_first_response_valid_witness:
  "OPENAI_API_KEY (scenario_env [plan_text]) = Some (js ''sk-test'') \<and> js ''sk-test'' \<noteq> []
   \<and> req_json scenario_request = Inr scenario_body
   \<and> parse (zod_error_map (scenario_env [plan_text])) DiagnosticInputSchema scenario_body
        = Inr (Some scenario_input)
   \<and> call (scenario_env [plan_text]) start (build_prompt (scenario_env [plan_text]) scenario_input)
        = (Returned (Some plan_text),
           \<lparr>provider = 1, sent = [build_prompt (scenario_env [plan_text]) scenario_input]\<rparr>)
   \<and> json_parse (scenario_env [plan_text]) (json_block (raw_text (Some plan_text))) = Inr plan_parsed
   \<and> safeParse (zod_error_map (scenario_env [plan_text])) DiagnosticPlanSchema plan_parsed
        = Inr (Some plan_validated)
   \<and> (\<exists>plan s n.
         POST (scenario_env [plan_text]) scenario_request start
           = (\<lparr>status = 200, body = JObj [(js ''ok'', JBool True), (js ''plan'', plan)]\<rparr>,
              \<lparr>provider = 1, sent = [build_prompt (scenario_env [plan_text]) scenario_input]\<rparr>)
         \<and> field (js ''firstStepId'') plan_parsed = Some (JStr s)
         \<and> field (js ''firstStepId'') plan = Some (JStr s)
         \<and> array_length (field (js ''steps'') plan_parsed) = Some n
         \<and> array_length (field (js ''steps'') plan) = Some n)"
  using scenario_key [of "[plan_text]"] scenario_key_nonempty scenario_req
    scenario_valid_input [of "[plan_text]"] scenario_first_call
    scenario_plan_parse [of "[plan_text]"] scenario_plan_safeParse [of "[plan_text]"]
    POST_first_response_valid [OF scenario_key scenario_key_nonempty scenario_req
      scenario_valid_input scenario_first_call scenario_plan_parse scenario_plan_safeParse]
  by (intro conjI)

text \<open>
  Claim C8 as stated fails: the schema asks for a string and an array only. A first reply
  with \<open>firstStepId\<close> "none" and a single step validates, and the response carries that plan.
\<close>

theorem POST_first_response_valid_counterexample:
  "call (scenario_env [plan_text]) start (build_prompt (scenario_env [plan_text]) scenario_input)
        = (Returned (Some plan_text),
           \<lparr>provider = 1, sent = [build_prompt (scenario_env [plan_text]) scenario_input]\<rparr>)
   \<and> json_parse (scenario_env [plan_text]) (json_block (raw_text (Some plan_text))) = Inr plan_parsed
   \<and> safeParse (zod_error_map (scenario_env [plan_text])) DiagnosticPlanSchema plan_parsed
        = Inr (Some plan_validated)
   \<and> fst (POST (scenario_env [plan_text]) scenario_request start)
        = \<lparr>status = 200, body = JObj [(js ''ok'', JBool True), (js ''plan'', plan_validated)]\<rparr>
   \<and> field (js ''firstStepId'') plan_validated = Some (JStr (js ''none''))
   \<and> js ''none'' \<noteq> js ''step-1''
   \<and> array_length (field (js ''steps'') plan_validated) = Some 1
   \<and> \<not> (5 \<le> (1::nat))"
proof -
  have "js ''none'' \<noteq> js ''step-1''" by (simp add: js_def)
  then show ?thesis
    using scenario_first_call scenario_plan_parse [of "[plan_text]"]
      scenario_plan_safeParse [of "[plan_text]"] plan_validated_facts(1,2)
    by (simp add: scenario_success)
qed

end
